theory Spec2Isabelle
  imports Complex_Main "HOL-Library.AList"
begin

section \<open>Data model of \<open>opt.py\<close>\<close>

text \<open>
  Tokens are Python strings, a right-hand side is a tuple of tokens, a feature vector and
  a weight vector are one-dimensional numpy arrays. Floating-point numbers are idealised
  as real numbers: \<open>+\<close>, \<open>*\<close>, \<open>/\<close>, \<open>exp\<close> and \<open>log\<close> are the exact operations,
  with no rounding, overflow, infinities or NaN. What the program does because of
  rounding or overflow (a sum of probabilities that is 1 only within a tolerance, a score
  that is infinite, an exponential that underflows to 0) is therefore outside this model,
  and nothing below is a statement about it.
\<close>

type_synonym token = string
type_synonym lhs = token
type_synonym rhs = "token list"
type_synonym vec = "real list"

text \<open>
  The exceptions the program can raise. \<open>ParseError\<close>, \<open>FeatureMismatchError\<close>,
  \<open>DimensionMismatchError\<close> and \<open>ProbabilityZeroError\<close> are the classes the source
  declares; the others are Python's and numpy's own. A failed \<open>assert\<close> carries its
  message.
\<close>

datatype assert_msg = Mismatching_dimensions | Mismatching_features lhs rhs

datatype error =
    ParseError
  | FeatureMismatchError
  | DimensionMismatchError
  | ProbabilityZeroError
  | AssertionError assert_msg
  | KeyError
  | ValueError
  | IndexError
  | TypeError

subsection \<open>Dictionaries\<close>

text \<open>
  A Python dict that the program iterates over is an association list in insertion order;
  \<open>d[k] = v\<close> is \<open>AList.update k v d\<close> (an existing key keeps its place, a new key
  goes last), \<open>d.get(k)\<close> is \<open>map_of d k\<close>, \<open>d.keys()\<close> is \<open>map fst d\<close>.
\<close>

definition dict_getitem :: "('k \<times> 'v) list \<Rightarrow> 'k \<Rightarrow> error + 'v" where
  "dict_getitem d k = (case map_of d k of None \<Rightarrow> Inl KeyError | Some v \<Rightarrow> Inr v)"

text \<open>
  \<open>defaultdict(lambda: {})[k]\<close>: a missing key is first inserted with a new empty dict.
  Returns the value and the dictionary as it is afterwards.
\<close>

definition defaultdict_getitem ::
  "('k \<times> ('j \<times> 'v) list) list \<Rightarrow> 'k \<Rightarrow> ('j \<times> 'v) list \<times> ('k \<times> ('j \<times> 'v) list) list" where
  "defaultdict_getitem dd k =
     (case map_of dd k of
        None \<Rightarrow> ([], AList.update k [] dd)
      | Some d \<Rightarrow> (d, dd))"

subsection \<open>numpy on one-dimensional arrays\<close>

definition np_zeros :: "nat option \<Rightarrow> error + vec" where
  "np_zeros n = (case n of None \<Rightarrow> Inl TypeError | Some k \<Rightarrow> Inr (replicate k 0))"

definition np_dot :: "vec \<Rightarrow> vec \<Rightarrow> error + real" where
  "np_dot a b =
     (if length a = length b then Inr (sum_list (map2 (*) a b)) else Inl ValueError)"

definition np_max :: "vec \<Rightarrow> error + real" where
  "np_max xs = (case xs of [] \<Rightarrow> Inl ValueError | x # r \<Rightarrow> Inr (fold max r x))"

text \<open>\<open>a - b\<close> on two arrays, with numpy's broadcasting of an array of length one.\<close>

definition np_sub :: "vec \<Rightarrow> vec \<Rightarrow> error + vec" where
  "np_sub a b =
     (if length a = length b then Inr (map2 (-) a b)
      else if length a = 1 then Inr (map (\<lambda>y. hd a - y) b)
      else if length b = 1 then Inr (map (\<lambda>x. x - hd b) a)
      else Inl ValueError)"

text \<open>\<open>a += b\<close>: in place, so only \<open>b\<close> can be broadcast.\<close>

definition np_iadd :: "vec \<Rightarrow> vec \<Rightarrow> error + vec" where
  "np_iadd a b =
     (if length a = length b then Inr (map2 (+) a b)
      else if length b = 1 then Inr (map (\<lambda>x. x + hd b) a)
      else Inl ValueError)"

definition np_scale :: "real \<Rightarrow> vec \<Rightarrow> vec" where
  "np_scale c v = map (\<lambda>x. c * x) v"

text \<open>\<open>v.put(i, x)\<close> with numpy's default \<open>mode='raise'\<close>.\<close>

definition np_put :: "vec \<Rightarrow> nat \<Rightarrow> real \<Rightarrow> error + vec" where
  "np_put v i x = (if i < length v then Inr (v[i := x]) else Inl IndexError)"

definition np_getitem :: "vec \<Rightarrow> nat \<Rightarrow> error + real" where
  "np_getitem v i = (if i < length v then Inr (v ! i) else Inl IndexError)"

text \<open>\<open>np.finfo('float').min\<close>, the most negative finite double: \<open>-(2 - 2^-52) * 2^1023\<close>.\<close>

definition finfo_float_min :: real where
  "finfo_float_min = - ((2 ^ 53 - 1) * 2 ^ 971)"

text \<open>\<open>list.index(x)\<close>: the position of the first occurrence, \<open>ValueError\<close> if there is none.\<close>

fun list_index :: "'a list \<Rightarrow> 'a \<Rightarrow> error + nat" where
  "list_index [] a = Inl ValueError"
| "list_index (x # xs) a =
     (if x = a then Inr 0
      else (case list_index xs a of Inl e \<Rightarrow> Inl e | Inr i \<Rightarrow> Inr (Suc i)))"

section \<open>Programs with state and exceptions\<close>

text \<open>
  A method call takes the object's state and gives a result or an exception, and the
  state afterwards: what a call wrote before it raised stays written.
\<close>

type_synonym ('s, 'a) prog = "'s \<Rightarrow> (error + 'a) \<times> 's"

definition ret :: "'a \<Rightarrow> ('s, 'a) prog" where
  "ret a = (\<lambda>s. (Inr a, s))"

definition lift :: "error + 'a \<Rightarrow> ('s, 'a) prog" where
  "lift r = (\<lambda>s. (r, s))"

definition bind :: "('s, 'a) prog \<Rightarrow> ('a \<Rightarrow> ('s, 'b) prog) \<Rightarrow> ('s, 'b) prog" where
  "bind m f = (\<lambda>s. case m s of (Inl e, s') \<Rightarrow> (Inl e, s') | (Inr a, s') \<Rightarrow> f a s')"

text \<open>A list comprehension \<open>[f(x) for x in xs]\<close>.\<close>

fun mapM :: "('a \<Rightarrow> ('s, 'b) prog) \<Rightarrow> 'a list \<Rightarrow> ('s, 'b list) prog" where
  "mapM f [] = ret []"
| "mapM f (x # xs) = bind (f x) (\<lambda>y. bind (mapM f xs) (\<lambda>ys. ret (y # ys)))"

text \<open>A \<open>for x in xs\<close> loop that updates a local variable.\<close>

fun foldM :: "('b \<Rightarrow> 'a \<Rightarrow> ('s, 'b) prog) \<Rightarrow> 'a list \<Rightarrow> 'b \<Rightarrow> ('s, 'b) prog" where
  "foldM f [] acc = ret acc"
| "foldM f (x # xs) acc = bind (f acc x) (\<lambda>acc'. foldM f xs acc')"

text \<open>The same two loops for code that touches no object state.\<close>

definition ebind :: "error + 'a \<Rightarrow> ('a \<Rightarrow> error + 'b) \<Rightarrow> error + 'b" where
  "ebind r f = (case r of Inl e \<Rightarrow> Inl e | Inr a \<Rightarrow> f a)"

fun emap :: "('a \<Rightarrow> error + 'b) \<Rightarrow> 'a list \<Rightarrow> error + 'b list" where
  "emap f [] = Inr []"
| "emap f (x # xs) = ebind (f x) (\<lambda>y. ebind (emap f xs) (\<lambda>ys. Inr (y # ys)))"

fun efold :: "('b \<Rightarrow> 'a \<Rightarrow> error + 'b) \<Rightarrow> 'a list \<Rightarrow> 'b \<Rightarrow> error + 'b" where
  "efold f [] acc = Inr acc"
| "efold f (x # xs) acc = ebind (f acc x) (\<lambda>acc'. efold f xs acc')"

section \<open>\<open>LogLinModelFromFile\<close>: the LogLinModelFromFile feature model\<close>

text \<open>
  \<open>_rules\<close> is a \<open>defaultdict\<close> from LHSs to dicts from RHSs to feature vectors, \<open>_dim\<close> is
  \<open>None\<close> until the first triple is read.
\<close>

record LogLinModelFromFile =
  priv_rules :: "(lhs \<times> (rhs \<times> vec) list) list"
  priv_dim :: "nat option"

text \<open>One round of the constructor's loop; an exception leaves no object behind.\<close>

definition FromFile_init_step :: "LogLinModelFromFile \<Rightarrow> lhs \<times> rhs \<times> vec \<Rightarrow> error + LogLinModelFromFile" where
  "FromFile_init_step m t =
     (case t of (l, r, feats) \<Rightarrow>
        ebind (case priv_dim m of
                 None \<Rightarrow> Inr (m\<lparr>priv_dim := Some (length feats)\<rparr>)
               | Some d \<Rightarrow>
                   if d = length feats then Inr m
                   else Inl (AssertionError Mismatching_dimensions))
          (\<lambda>m1. case defaultdict_getitem (priv_rules m1) l of (d, rules1) \<Rightarrow>
             (case map_of d r of
                Some old_feats \<Rightarrow>
                  if old_feats = feats then Inr (m1\<lparr>priv_rules := rules1\<rparr>)
                  else Inl (AssertionError (Mismatching_features l r))
              | None \<Rightarrow>
                  Inr (m1\<lparr>priv_rules := AList.update l (AList.update r feats d) rules1\<rparr>))))"

definition FromFile_init :: "(lhs \<times> rhs \<times> vec) list \<Rightarrow> error + LogLinModelFromFile" where
  "FromFile_init inp = efold FromFile_init_step inp \<lparr>priv_rules = [], priv_dim = None\<rparr>"

definition FromFile_dim :: "(LogLinModelFromFile, nat option) prog" where
  "FromFile_dim = (\<lambda>s. (Inr (priv_dim s), s))"

definition FromFile_lhss :: "(LogLinModelFromFile, lhs list) prog" where
  "FromFile_lhss = (\<lambda>s. (Inr (map fst (priv_rules s)), s))"

definition FromFile_rhss :: "lhs \<Rightarrow> (LogLinModelFromFile, rhs list) prog" where
  "FromFile_rhss l = (\<lambda>s. case defaultdict_getitem (priv_rules s) l of
                       (d, rules1) \<Rightarrow> (Inr (map fst d), s\<lparr>priv_rules := rules1\<rparr>))"

definition FromFile_featvec :: "lhs \<Rightarrow> rhs \<Rightarrow> (LogLinModelFromFile, vec) prog" where
  "FromFile_featvec l r = (\<lambda>s. case defaultdict_getitem (priv_rules s) l of
                            (d, rules1) \<Rightarrow> (dict_getitem d r, s\<lparr>priv_rules := rules1\<rparr>))"

section \<open>\<open>LogLinModelBasic\<close>: the indicator feature model\<close>

text \<open>
  \<open>_rulelist\<close> is the list the constructor was given; \<open>_featvecdict\<close> and \<open>_indexdict\<close>
  are the two caches, empty at first. The caches are only looked up by key, so they are
  maps.
\<close>

record LogLinModelBasic =
  priv_rulelist :: "(lhs \<times> rhs) list"
  priv_featvecdict :: "lhs \<times> rhs \<rightharpoonup> vec"
  priv_indexdict :: "lhs \<times> rhs \<rightharpoonup> nat"

definition Basic_init :: "(lhs \<times> rhs) list \<Rightarrow> LogLinModelBasic" where
  "Basic_init rulelist =
     \<lparr>priv_rulelist = rulelist, priv_featvecdict = Map.empty, priv_indexdict = Map.empty\<rparr>"

text \<open>
  \<open>list(set(xs))\<close>: the distinct elements of \<open>xs\<close>, in an order Python does not
  specify. The model takes the order of \<open>remdups\<close>; the theorems below use the result
  only through its set of elements and through sums over it, which no order changes.
\<close>

definition list_of_set :: "'a list \<Rightarrow> 'a list" where
  "list_of_set xs = remdups xs"

definition Basic_dim :: "(LogLinModelBasic, nat option) prog" where
  "Basic_dim = (\<lambda>s. (Inr (Some (length (priv_rulelist s))), s))"

definition Basic_lhss :: "(LogLinModelBasic, lhs list) prog" where
  "Basic_lhss = (\<lambda>s. (Inr (list_of_set (map fst (priv_rulelist s))), s))"

definition Basic_rhss :: "lhs \<Rightarrow> (LogLinModelBasic, rhs list) prog" where
  "Basic_rhss x =
     (\<lambda>s. (Inr (list_of_set (map snd (filter (\<lambda>(l, r). x = l) (priv_rulelist s)))), s))"

definition Basic_find_index :: "lhs \<Rightarrow> rhs \<Rightarrow> (LogLinModelBasic, nat) prog" where
  "Basic_find_index l r =
     (\<lambda>s. case priv_indexdict s (l, r) of
             Some i \<Rightarrow> (Inr i, s)
           | None \<Rightarrow>
               (case list_index (priv_rulelist s) (l, r) of
                  Inl e \<Rightarrow> (Inl e, s)
                | Inr index \<Rightarrow>
                    (Inr index, s\<lparr>priv_indexdict := (priv_indexdict s)((l, r) \<mapsto> index)\<rparr>)))"

definition Basic_featvec :: "lhs \<Rightarrow> rhs \<Rightarrow> (LogLinModelBasic, vec) prog" where
  "Basic_featvec l r =
     (\<lambda>s. case priv_featvecdict s (l, r) of
             Some v \<Rightarrow> (Inr v, s)
           | None \<Rightarrow>
               bind (Basic_find_index l r) (\<lambda>index.
               bind Basic_dim (\<lambda>d.
               bind (lift (np_zeros d)) (\<lambda>v0.
               bind (lift (np_put v0 index 1)) (\<lambda>v.
                 (\<lambda>s'. (Inr v, s'\<lparr>priv_featvecdict := (priv_featvecdict s')((l, r) \<mapsto> v)\<rparr>)))))) s)"

definition Basic_featvec_dot :: "lhs \<Rightarrow> rhs \<Rightarrow> vec \<Rightarrow> (LogLinModelBasic, real) prog" where
  "Basic_featvec_dot x y othervec =
     bind (Basic_find_index x y) (\<lambda>index. lift (np_getitem othervec index))"

section \<open>\<open>LogLinModel\<close>: the base class\<close>

text \<open>
  The methods a subclass provides, dispatched through a record. \<open>dim\<close> can be \<open>None\<close>
  (a dense model built from no triple).
\<close>

record 's LogLinModel =
  dim :: "('s, nat option) prog"
  lhss :: "('s, lhs list) prog"
  rhss :: "lhs \<Rightarrow> ('s, rhs list) prog"
  featvec :: "lhs \<Rightarrow> rhs \<Rightarrow> ('s, vec) prog"
  featvec_dot :: "lhs \<Rightarrow> rhs \<Rightarrow> vec \<Rightarrow> ('s, real) prog"

text \<open>The base class's \<open>featvec_dot\<close>, over the subclass's \<open>featvec\<close>.\<close>

definition LogLinModel_featvec_dot ::
  "(lhs \<Rightarrow> rhs \<Rightarrow> ('s, vec) prog) \<Rightarrow> lhs \<Rightarrow> rhs \<Rightarrow> vec \<Rightarrow> ('s, real) prog" where
  "LogLinModel_featvec_dot self_featvec x y othervec =
     bind (self_featvec x y) (\<lambda>fv. lift (np_dot othervec fv))"

definition FromFile_class :: "LogLinModelFromFile LogLinModel" where
  "FromFile_class =
     \<lparr>dim = FromFile_dim, lhss = FromFile_lhss, rhss = FromFile_rhss,
      featvec = FromFile_featvec, featvec_dot = LogLinModel_featvec_dot FromFile_featvec\<rparr>"

definition Basic_class :: "LogLinModelBasic LogLinModel" where
  "Basic_class =
     \<lparr>dim = Basic_dim, lhss = Basic_lhss, rhss = Basic_rhss,
      featvec = Basic_featvec, featvec_dot = Basic_featvec_dot\<rparr>"

definition score :: "'s LogLinModel \<Rightarrow> vec \<Rightarrow> lhs \<Rightarrow> rhs \<Rightarrow> ('s, real) prog" where
  "score cls weights x y = featvec_dot cls x y weights"

subsection \<open>\<open>probs_from_model\<close>\<close>

type_synonym probtable = "(lhs \<times> (rhs \<times> real) list) list"

text \<open>The body of the loop over \<open>self.lhss()\<close>: the row \<open>probtable[x]\<close>.\<close>

definition probs_row :: "'s LogLinModel \<Rightarrow> vec \<Rightarrow> lhs \<Rightarrow> ('s, (rhs \<times> real) list) prog" where
  "probs_row cls weights x =
     bind (rhss cls x) (\<lambda>ys.
     bind (mapM (\<lambda>y. score cls weights x y) ys) (\<lambda>scores.
     bind (lift (np_max scores)) (\<lambda>b.
       let shifted_exp_scores = map (\<lambda>s. exp (s - b)) scores;
           normalized_probs =
             map (\<lambda>e. e / sum_list shifted_exp_scores) shifted_exp_scores
       in ret (fold (\<lambda>(y, p) row. AList.update y p row) (zip ys normalized_probs) []))))"

definition probs_from_model :: "'s LogLinModel \<Rightarrow> vec \<Rightarrow> ('s, probtable) prog" where
  "probs_from_model cls weights =
     bind (lhss cls) (\<lambda>xs.
       foldM (\<lambda>probtable x.
                bind (probs_row cls weights x) (\<lambda>row. ret (AList.update x row probtable)))
         xs [])"

subsection \<open>\<open>loglikelihood\<close>\<close>

type_synonym training_data = "(lhs \<times> (rhs \<times> int) list) list"

definition logprob :: "probtable \<Rightarrow> lhs \<Rightarrow> rhs \<Rightarrow> error + real" where
  "logprob probtable x y =
     ebind (dict_getitem probtable x) (\<lambda>row.
     ebind (dict_getitem row y) (\<lambda>prob.
       if prob = 0 then Inl ProbabilityZeroError else Inr (ln prob)))"

text \<open>The \<open>try\<close> block: the loop over \<open>td.items()\<close>.\<close>

definition loglikelihood_try :: "probtable \<Rightarrow> training_data \<Rightarrow> error + real" where
  "loglikelihood_try probtable td =
     efold (\<lambda>ll (l, d).
              ebind (emap (\<lambda>(r, freq).
                             ebind (logprob probtable l r) (\<lambda>lp. Inr (of_int freq * lp))) d)
                (\<lambda>terms. Inr (ll + sum_list terms)))
       td 0"

text \<open>\<open>except ProbabilityZeroError\<close>: every other exception passes through.\<close>

definition loglikelihood_of :: "probtable \<Rightarrow> training_data \<Rightarrow> error + real" where
  "loglikelihood_of probtable td =
     (case loglikelihood_try probtable td of
        Inl e \<Rightarrow> (if e = ProbabilityZeroError then Inr finfo_float_min else Inl e)
      | Inr ll \<Rightarrow> Inr ll)"

definition loglikelihood :: "'s LogLinModel \<Rightarrow> training_data \<Rightarrow> vec \<Rightarrow> ('s, real) prog" where
  "loglikelihood cls td weights =
     bind (probs_from_model cls weights) (\<lambda>probtable.
       lift (loglikelihood_of probtable td))"

subsection \<open>\<open>loglhdgrad\<close>\<close>

text \<open>The body of the first loop: the vector \<open>expectation[lhs]\<close>.\<close>

definition expectation_row :: "'s LogLinModel \<Rightarrow> probtable \<Rightarrow> lhs \<Rightarrow> ('s, vec) prog" where
  "expectation_row cls probtable l =
     bind (dim cls) (\<lambda>d.
     bind (lift (np_zeros d)) (\<lambda>foo0.
     bind (rhss cls l) (\<lambda>rhsps.
       foldM (\<lambda>foo rhsp.
                bind (featvec cls l rhsp) (\<lambda>fv.
                bind (lift (ebind (dict_getitem probtable l) (\<lambda>row. dict_getitem row rhsp)))
                  (\<lambda>p.
                lift (np_iadd foo (np_scale p fv)))))
         rhsps foo0)))"

text \<open>The body of the second loop, for one \<open>(rhs, freq)\<close> of \<open>td[lhs]\<close>.\<close>

definition loglhdgrad_step ::
  "'s LogLinModel \<Rightarrow> (lhs \<times> vec) list \<Rightarrow> lhs \<Rightarrow> vec \<Rightarrow> rhs \<times> int \<Rightarrow> ('s, vec) prog" where
  "loglhdgrad_step cls expectation l result rf =
     (case rf of (r, freq) \<Rightarrow>
        bind (featvec cls l r) (\<lambda>fv.
        bind (lift (dict_getitem expectation l)) (\<lambda>e.
        bind (lift (np_sub fv e)) (\<lambda>diff.
        lift (np_iadd result (np_scale (of_int freq) diff))))))"

definition loglhdgrad :: "'s LogLinModel \<Rightarrow> training_data \<Rightarrow> vec \<Rightarrow> ('s, vec) prog" where
  "loglhdgrad cls td weights =
     bind (probs_from_model cls weights) (\<lambda>probtable.
     bind (lhss cls) (\<lambda>xs.
     bind (foldM (\<lambda>expectation l.
                    bind (expectation_row cls probtable l) (\<lambda>foo.
                      ret (AList.update l foo expectation)))
             xs []) (\<lambda>expectation.
     bind (dim cls) (\<lambda>d.
     bind (lift (np_zeros d)) (\<lambda>result0.
       foldM (\<lambda>result (l, d). foldM (loglhdgrad_step cls expectation l) d result)
         td result0)))))"

subsection \<open>The penalty, and the two functions \<open>train\<close> hands to the minimizer\<close>



definition penaltygrad :: "real \<Rightarrow> vec \<Rightarrow> vec" where
  "penaltygrad lam weights = np_scale lam weights"


definition gradient :: "'s LogLinModel \<Rightarrow> training_data \<Rightarrow> real \<Rightarrow> vec \<Rightarrow> ('s, vec) prog" where
  "gradient cls td regularization_lambda weights =
     bind (loglhdgrad cls td weights) (\<lambda>g.
       lift (np_sub (penaltygrad regularization_lambda weights) g))"

section \<open>Auxiliary notions for the proofs\<close>

definition FromFile_lookup :: "LogLinModelFromFile \<Rightarrow> lhs \<Rightarrow> rhs \<Rightarrow> vec option" where
  "FromFile_lookup m l r = (case map_of (priv_rules m) l of None \<Rightarrow> None | Some d \<Rightarrow> map_of d r)"

definition dict_wf :: "LogLinModelFromFile \<Rightarrow> bool" where
  "dict_wf m \<longleftrightarrow> distinct (map fst (priv_rules m)) \<and>
     (\<forall>(l, d) \<in> set (priv_rules m). d \<noteq> [] \<and> distinct (map fst d))"

definition FromFile_store :: "LogLinModelFromFile \<Rightarrow> lhs \<Rightarrow> rhs \<Rightarrow> vec \<Rightarrow> LogLinModelFromFile" where
  "FromFile_store m l r f =
     m\<lparr>priv_dim := Some (length f),
       priv_rules := AList.update l (AList.update r f
          (case map_of (priv_rules m) l of None \<Rightarrow> [] | Some d \<Rightarrow> d)) (priv_rules m)\<rparr>"

fun rule_feats :: "(lhs \<times> rhs \<times> vec) list \<Rightarrow> lhs \<Rightarrow> rhs \<Rightarrow> vec option" where
  "rule_feats [] l r = None"
| "rule_feats ((l', r', f) # rest) l r =
     (if l' = l \<and> r' = r then Some f else rule_feats rest l r)"

definition same_dims :: "(lhs \<times> rhs \<times> vec) list \<Rightarrow> bool" where
  "same_dims inp \<longleftrightarrow> (\<forall>t \<in> set inp. length (snd (snd t)) = length (snd (snd (hd inp))))"

definition same_feats :: "(lhs \<times> rhs \<times> vec) list \<Rightarrow> bool" where
  "same_feats inp \<longleftrightarrow>
     (\<forall>l r f f'. (l, r, f) \<in> set inp \<and> (l, r, f') \<in> set inp \<longrightarrow> f = f')"

definition init_inv :: "(lhs \<times> rhs \<times> vec) list \<Rightarrow> LogLinModelFromFile \<Rightarrow> bool" where
  "init_inv inp m \<longleftrightarrow> dict_wf m \<and> FromFile_lookup m = rule_feats inp \<and>
     priv_dim m = (case inp of [] \<Rightarrow> None | t # _ \<Rightarrow> Some (length (snd (snd t)))) \<and>
     same_dims inp \<and> same_feats inp"

definition one_hot :: "nat \<Rightarrow> nat \<Rightarrow> vec" where
  "one_hot n i = (replicate n 0)[i := 1]"

definition Basic_inv :: "(lhs \<times> rhs) list \<Rightarrow> LogLinModelBasic \<Rightarrow> bool" where
  "Basic_inv rl s \<longleftrightarrow> priv_rulelist s = rl \<and>
     (\<forall>k i. priv_indexdict s k = Some i \<longrightarrow> list_index rl k = Inr i) \<and>
     (\<forall>k v. priv_featvecdict s k = Some v \<longrightarrow>
        (\<exists>i. list_index rl k = Inr i \<and> v = one_hot (length rl) i))"

definition returns :: "('s \<Rightarrow> bool) \<Rightarrow> ('s, 'a) prog \<Rightarrow> 'a \<Rightarrow> bool" where
  "returns I m v \<longleftrightarrow> (\<forall>s. I s \<longrightarrow> fst (m s) = Inr v \<and> I (snd (m s)))"

definition dot :: "vec \<Rightarrow> vec \<Rightarrow> real" where
  "dot a b = sum_list (map2 (*) a b)"

definition softmax :: "real list \<Rightarrow> real list" where
  "softmax scores =
     map (\<lambda>s. exp (s - Max (set scores)) / (\<Sum>t\<leftarrow>scores. exp (t - Max (set scores)))) scores"

definition prob_table :: "vec \<Rightarrow> lhs list \<Rightarrow> (lhs \<Rightarrow> rhs list) \<Rightarrow> (lhs \<Rightarrow> rhs \<Rightarrow> vec) \<Rightarrow> probtable" where
  "prob_table w xs ys fv =
     map (\<lambda>x. (x, zip (ys x) (softmax (map (\<lambda>y. dot w (fv x y)) (ys x))))) xs"

definition implements ::
  "('s \<Rightarrow> bool) \<Rightarrow> 's LogLinModel \<Rightarrow> nat \<Rightarrow> lhs list \<Rightarrow> (lhs \<Rightarrow> rhs list) \<Rightarrow> (lhs \<Rightarrow> rhs \<Rightarrow> vec) \<Rightarrow> bool" where
  "implements I cls d xs ys fv \<longleftrightarrow>
     distinct xs \<and> returns I (dim cls) (Some d) \<and> returns I (lhss cls) xs \<and>
     (\<forall>x \<in> set xs. distinct (ys x) \<and> returns I (rhss cls x) (ys x) \<and>
        (\<forall>y \<in> set (ys x). length (fv x y) = d \<and> returns I (featvec cls x y) (fv x y) \<and>
           (\<forall>w. length w = d \<longrightarrow> returns I (featvec_dot cls x y w) (dot w (fv x y)))))"

definition FromFile_lhss_of :: "LogLinModelFromFile \<Rightarrow> lhs list" where
  "FromFile_lhss_of m = map fst (priv_rules m)"

definition FromFile_rhss_of :: "LogLinModelFromFile \<Rightarrow> lhs \<Rightarrow> rhs list" where
  "FromFile_rhss_of m x = map fst (case map_of (priv_rules m) x of None \<Rightarrow> [] | Some d \<Rightarrow> d)"

definition FromFile_featvec_of :: "LogLinModelFromFile \<Rightarrow> lhs \<Rightarrow> rhs \<Rightarrow> vec" where
  "FromFile_featvec_of m x y = (case FromFile_lookup m x y of None \<Rightarrow> [] | Some v \<Rightarrow> v)"

definition Basic_lhss_of :: "(lhs \<times> rhs) list \<Rightarrow> lhs list" where
  "Basic_lhss_of rl = list_of_set (map fst rl)"

definition Basic_rhss_of :: "(lhs \<times> rhs) list \<Rightarrow> lhs \<Rightarrow> rhs list" where
  "Basic_rhss_of rl x = list_of_set (map snd (filter (\<lambda>(l, r). x = l) rl))"

definition Basic_featvec_of :: "(lhs \<times> rhs) list \<Rightarrow> lhs \<Rightarrow> rhs \<Rightarrow> vec" where
  "Basic_featvec_of rl x y =
     one_hot (length rl) (case list_index rl (x, y) of Inl e \<Rightarrow> 0 | Inr i \<Rightarrow> i)"

definition table_lookup :: "probtable \<Rightarrow> lhs \<Rightarrow> rhs \<Rightarrow> real option" where
  "table_lookup pt l r = (case map_of pt l of None \<Rightarrow> None | Some row \<Rightarrow> map_of row r)"

definition td_in_table :: "probtable \<Rightarrow> training_data \<Rightarrow> bool" where
  "td_in_table pt td \<longleftrightarrow>
     (\<forall>(l, d) \<in> set td. \<forall>(r, freq) \<in> set d. table_lookup pt l r \<noteq> None)"

definition zero_referenced :: "probtable \<Rightarrow> training_data \<Rightarrow> bool" where
  "zero_referenced pt td \<longleftrightarrow>
     (\<exists>(l, d) \<in> set td. \<exists>(r, freq) \<in> set d. table_lookup pt l r = Some 0)"

definition loglik_sum :: "probtable \<Rightarrow> training_data \<Rightarrow> real" where
  "loglik_sum pt td =
     (\<Sum>(l, d)\<leftarrow>td. \<Sum>(r, freq)\<leftarrow>d. of_int freq * ln (the (table_lookup pt l r)))"

definition td_in_model :: "lhs list \<Rightarrow> (lhs \<Rightarrow> rhs list) \<Rightarrow> training_data \<Rightarrow> bool" where
  "td_in_model xs ys td \<longleftrightarrow>
     (\<forall>(l, d) \<in> set td. l \<in> set xs \<and> (\<forall>(r, freq) \<in> set d. r \<in> set (ys l)))"

definition prob_of ::
  "vec \<Rightarrow> lhs list \<Rightarrow> (lhs \<Rightarrow> rhs list) \<Rightarrow> (lhs \<Rightarrow> rhs \<Rightarrow> vec) \<Rightarrow> lhs \<Rightarrow> rhs \<Rightarrow> real" where
  "prob_of w xs ys fv l r = the (table_lookup (prob_table w xs ys fv) l r)"

definition expectation_spec ::
  "vec \<Rightarrow> lhs list \<Rightarrow> (lhs \<Rightarrow> rhs list) \<Rightarrow> (lhs \<Rightarrow> rhs \<Rightarrow> vec) \<Rightarrow> lhs \<Rightarrow> nat \<Rightarrow> real" where
  "expectation_spec w xs ys fv l k = (\<Sum>r'\<leftarrow>ys l. prob_of w xs ys fv l r' * fv l r' ! k)"

definition grad_loglikelihood_spec ::
  "vec \<Rightarrow> lhs list \<Rightarrow> (lhs \<Rightarrow> rhs list) \<Rightarrow> (lhs \<Rightarrow> rhs \<Rightarrow> vec) \<Rightarrow> training_data \<Rightarrow> nat \<Rightarrow> real" where
  "grad_loglikelihood_spec w xs ys fv td k =
     (\<Sum>(l, d)\<leftarrow>td. \<Sum>(r, freq)\<leftarrow>d.
        of_int freq * (fv l r ! k - expectation_spec w xs ys fv l k))"

definition gradient_spec ::
  "real \<Rightarrow> vec \<Rightarrow> lhs list \<Rightarrow> (lhs \<Rightarrow> rhs list) \<Rightarrow> (lhs \<Rightarrow> rhs \<Rightarrow> vec) \<Rightarrow> training_data \<Rightarrow> nat \<Rightarrow> real" where
  "gradient_spec lam w xs ys fv td k =
     lam * w ! k - grad_loglikelihood_spec w xs ys fv td k"

definition vec_acc :: "('a \<Rightarrow> vec) \<Rightarrow> vec \<Rightarrow> 'a list \<Rightarrow> vec" where
  "vec_acc h acc xs = foldl (\<lambda>a x. map2 (+) a (h x)) acc xs"

definition expectation_vec ::
  "vec \<Rightarrow> lhs list \<Rightarrow> (lhs \<Rightarrow> rhs list) \<Rightarrow> (lhs \<Rightarrow> rhs \<Rightarrow> vec) \<Rightarrow> nat \<Rightarrow> lhs \<Rightarrow> vec" where
  "expectation_vec w xs ys fv d l =
     vec_acc (\<lambda>r'. np_scale (prob_of w xs ys fv l r') (fv l r')) (replicate d 0) (ys l)"

definition loglhdgrad_vec ::
  "vec \<Rightarrow> lhs list \<Rightarrow> (lhs \<Rightarrow> rhs list) \<Rightarrow> (lhs \<Rightarrow> rhs \<Rightarrow> vec) \<Rightarrow> nat \<Rightarrow> training_data \<Rightarrow> vec" where
  "loglhdgrad_vec w xs ys fv d td =
     foldl (\<lambda>res (l, d').
              vec_acc (\<lambda>(r, freq). np_scale (of_int freq)
                         (map2 (-) (fv l r) (expectation_vec w xs ys fv d l))) res d')
       (replicate d 0) td"

text \<open>
  What the constructor's two checks say about a triple, given the triples read before
  it: the dimension check comes first, then the check of a repeated pair.
\<close>

fun check_triple :: "(lhs \<times> rhs \<times> vec) list \<Rightarrow> lhs \<times> rhs \<times> vec \<Rightarrow> error option" where
  "check_triple earlier (l, r, f) =
     (if earlier \<noteq> [] \<and> length f \<noteq> length (snd (snd (hd earlier)))
      then Some (AssertionError Mismatching_dimensions)
      else (case rule_feats earlier l r of
              None \<Rightarrow> None
            | Some old \<Rightarrow>
                if old = f then None else Some (AssertionError (Mismatching_features l r))))"

text \<open>
  The finite values of the IEEE 754 binary64 format: \<open>\<plusminus> m * 2^e\<close> with a significand
  \<open>m < 2^53\<close> and \<open>-1074 \<le> e \<le> 971\<close>.
\<close>

definition finite_double :: "real \<Rightarrow> bool" where
  "finite_double x \<longleftrightarrow>
     (\<exists>m e :: int. \<bar>m\<bar> < 2 ^ 53 \<and> - 1074 \<le> e \<and> e \<le> 971 \<and> x = of_int m * 2 powr of_int e)"











section \<open>Lemmas: the constructor of the dense model\<close>

lemma ebind_simps [simp]: "ebind (Inl e) f = Inl e" "ebind (Inr a) f = f a"
  by (simp_all add: ebind_def)

lemma set_update_subset: "p \<in> set (AList.update k v al) \<Longrightarrow> p = (k, v) \<or> p \<in> set al"
  by (induction al) (auto split: if_splits)

lemma step_result:
  "FromFile_init_step m (l, r, f) =
     (if priv_dim m \<noteq> None \<and> priv_dim m \<noteq> Some (length f) then Inl (AssertionError Mismatching_dimensions)
      else (case FromFile_lookup m l r of
              Some old \<Rightarrow> if old = f then Inr (m\<lparr>priv_dim := Some (length f)\<rparr>)
                          else Inl (AssertionError (Mismatching_features l r))
            | None \<Rightarrow> Inr (FromFile_store m l r f)))"
  by (auto simp: FromFile_init_step_def FromFile_lookup_def defaultdict_getitem_def
      FromFile_store_def split: option.splits)

lemma lookup_store:
  "FromFile_lookup (FromFile_store m l r f) l' r'
   = (if l' = l \<and> r' = r then Some f else FromFile_lookup m l' r')"
  by (auto simp: FromFile_lookup_def FromFile_store_def update_conv' split: option.splits)

lemma dim_store [simp]: "priv_dim (FromFile_store m l r f) = Some (length f)"
  by (simp add: FromFile_store_def)

lemma lookup_dim_upd [simp]: "FromFile_lookup (m\<lparr>priv_dim := dd\<rparr>) = FromFile_lookup m"
  by (auto simp: FromFile_lookup_def fun_eq_iff)

lemma dict_wf_dim_upd [simp]: "dict_wf (m\<lparr>priv_dim := dd\<rparr>) = dict_wf m"
  by (auto simp: dict_wf_def)

lemma dict_wf_step:
  assumes "dict_wf m"
  shows "dict_wf (FromFile_store m l r f)"
proof -
  let ?d = "case map_of (priv_rules m) l of None \<Rightarrow> [] | Some d \<Rightarrow> d"
  have d: "distinct (map fst ?d)"
    using assms by (auto simp: dict_wf_def split: option.splits dest!: map_of_SomeD)
  have "distinct (map fst (AList.update r f ?d))" "AList.update r f ?d \<noteq> []"
    using d by (simp_all add: distinct_update)
  then show ?thesis
    using assms by (auto simp: dict_wf_def FromFile_store_def distinct_update dest!: set_update_subset)
qed

lemma efold_append: "efold f (xs @ ys) a = ebind (efold f xs a) (efold f ys)"
  by (induction xs arbitrary: a) (auto simp: ebind_def split: sum.splits)

lemma ebind_Inr [simp]: "ebind r (\<lambda>x. Inr x) = r"
  by (cases r) simp_all

lemma efold_single: "efold f [x] = (\<lambda>a. f a x)"
proof
  fix a
  have "efold f [] = (\<lambda>x. Inr x)" by (simp add: fun_eq_iff)
  then show "efold f [x] a = f a x" by simp
qed

lemma FromFile_init_snoc:
  "FromFile_init (inp @ [t]) = ebind (FromFile_init inp) (\<lambda>m. FromFile_init_step m t)"
  by (simp add: FromFile_init_def efold_append efold_single)

lemma rule_feats_snoc:
  "rule_feats (inp @ [(l, r, f)]) l' r' =
     (case rule_feats inp l' r' of Some v \<Rightarrow> Some v
      | None \<Rightarrow> if l' = l \<and> r' = r then Some f else None)"
  by (induction inp) auto

lemma rule_feats_Some: "rule_feats inp l r = Some f \<Longrightarrow> (l, r, f) \<in> set inp"
  by (induction inp) (auto split: if_splits)

lemma rule_feats_None_iff: "rule_feats inp l r = None \<longleftrightarrow> (\<forall>f. (l, r, f) \<notin> set inp)"
  by (induction inp) (auto split: if_splits)

lemma same_dims_snoc:
  "same_dims (inp @ [(l, r, f)]) \<longleftrightarrow>
     same_dims inp \<and> (inp = [] \<or> length f = length (snd (snd (hd inp))))"
  by (cases inp) (auto simp: same_dims_def)

lemma same_feats_snoc:
  "same_feats (inp @ [(l, r, f)]) \<longleftrightarrow>
     same_feats inp \<and> (rule_feats inp l r = None \<or> rule_feats inp l r = Some f)"
proof (cases "rule_feats inp l r")
  case None
  then have n: "\<forall>f. (l, r, f) \<notin> set inp" by (simp add: rule_feats_None_iff)
  have "same_feats (inp @ [(l, r, f)]) \<longleftrightarrow> same_feats inp"
    unfolding same_feats_def using n by simp blast
  with None show ?thesis by simp
next
  case (Some v)
  then have v: "(l, r, v) \<in> set inp" by (rule rule_feats_Some)
  show ?thesis
  proof
    assume a: "same_feats (inp @ [(l, r, f)])"
    then have "same_feats inp" unfolding same_feats_def by simp blast
    moreover from a v have "v = f" unfolding same_feats_def by simp blast
    ultimately show "same_feats inp \<and> (rule_feats inp l r = None \<or> rule_feats inp l r = Some f)"
      using Some by simp
  next
    assume a: "same_feats inp \<and> (rule_feats inp l r = None \<or> rule_feats inp l r = Some f)"
    with Some have "v = f" by simp
    with a v show "same_feats (inp @ [(l, r, f)])"
      unfolding same_feats_def by simp blast
  qed
qed

lemma init_inv_snoc:
  assumes "init_inv inp m" "FromFile_init_step m (l, r, f) = Inr m'"
  shows "init_inv (inp @ [(l, r, f)]) m'"
proof -
  from assms have dimok: "inp = [] \<or> length f = length (snd (snd (hd inp)))"
    by (cases inp) (auto simp: step_result init_inv_def split: if_splits)
  from assms have featok: "rule_feats inp l r = None \<or> rule_feats inp l r = Some f"
    by (auto simp: step_result init_inv_def split: if_splits option.splits)
  have sd: "same_dims (inp @ [(l, r, f)])"
    using assms(1) dimok by (simp add: same_dims_snoc init_inv_def)
  have sf: "same_feats (inp @ [(l, r, f)])"
    using assms(1) featok by (simp add: same_feats_snoc init_inv_def)
  have wf: "dict_wf m'"
  proof (cases "FromFile_lookup m l r")
    case None
    with assms(2) have "m' = FromFile_store m l r f"
      by (simp add: step_result split: if_splits)
    moreover from assms(1) have "dict_wf m" by (simp add: init_inv_def)
    ultimately show ?thesis by (simp only: dict_wf_step)
  next
    case (Some old)
    with assms show ?thesis
      by (auto simp: step_result init_inv_def split: if_splits)
  qed
  have dim: "priv_dim m' = (case inp @ [(l, r, f)] of [] \<Rightarrow> None | t # _ \<Rightarrow> Some (length (snd (snd t))))"
    using assms dimok by (cases inp) (auto simp: step_result init_inv_def split: if_splits option.splits)
  have lk: "FromFile_lookup m' l' r' = rule_feats (inp @ [(l, r, f)]) l' r'" for l' r'
    using assms featok
    by (auto simp: step_result init_inv_def rule_feats_snoc lookup_store split: if_splits option.splits)
  then have "FromFile_lookup m' = rule_feats (inp @ [(l, r, f)])" by (simp add: fun_eq_iff)
  with sd sf wf dim show ?thesis by (simp add: init_inv_def)
qed

lemma step_succeeds_iff:
  assumes "init_inv inp m"
  shows "(\<exists>m'. FromFile_init_step m (l, r, f) = Inr m') \<longleftrightarrow>
     (inp = [] \<or> length f = length (snd (snd (hd inp)))) \<and>
     (rule_feats inp l r = None \<or> rule_feats inp l r = Some f)"
  using assms by (cases inp) (auto simp: step_result init_inv_def split: option.splits)

lemma init_inv_Nil: "init_inv [] \<lparr>priv_rules = [], priv_dim = None\<rparr>"
  by (simp add: init_inv_def dict_wf_def FromFile_lookup_def same_dims_def same_feats_def fun_eq_iff)

lemma FromFile_init_inv: "FromFile_init inp = Inr m \<Longrightarrow> init_inv inp m"
proof (induction inp arbitrary: m rule: rev_induct)
  case Nil
  then show ?case using init_inv_Nil by (simp add: FromFile_init_def)
next
  case (snoc t inp)
  obtain l r f where t: "t = (l, r, f)" by (cases t)
  from snoc.prems obtain m0 where m0: "FromFile_init inp = Inr m0" "FromFile_init_step m0 t = Inr m"
    by (auto simp: FromFile_init_snoc ebind_def split: sum.splits)
  from snoc.IH [OF m0(1)] m0(2) show ?case unfolding t by (rule init_inv_snoc)
qed

lemma FromFile_init_succeeds_iff:
  "(\<exists>m. FromFile_init inp = Inr m) \<longleftrightarrow> same_dims inp \<and> same_feats inp"
proof (induction inp rule: rev_induct)
  case Nil
  show ?case by (simp add: FromFile_init_def same_dims_def same_feats_def)
next
  case (snoc t inp)
  obtain l r f where t: "t = (l, r, f)" by (cases t)
  show ?case
  proof (cases "FromFile_init inp")
    case (Inl e)
    with snoc.IH show ?thesis
      by (auto simp: FromFile_init_snoc t same_dims_snoc same_feats_snoc)
  next
    case (Inr m0)
    then have inv: "init_inv inp m0" by (rule FromFile_init_inv)
    from Inr snoc.IH have "same_dims inp \<and> same_feats inp" by auto
    then show ?thesis
      using step_succeeds_iff [OF inv, of l r f] Inr
      by (simp add: FromFile_init_snoc t same_dims_snoc same_feats_snoc)
  qed
qed

lemma step_check:
  assumes "init_inv p m"
  shows "FromFile_init_step m t = Inl e \<longleftrightarrow> check_triple p t = Some e"
proof -
  obtain l r f where t: "t = (l, r, f)" by (cases t)
  from assms have lk: "FromFile_lookup m l r = rule_feats p l r" by (simp add: init_inv_def)
  from assms have dm: "priv_dim m = (case p of [] \<Rightarrow> None | t # _ \<Rightarrow> Some (length (snd (snd t))))"
    by (simp add: init_inv_def)
  show ?thesis
  proof (cases p)
    case Nil
    with lk dm show ?thesis by (auto simp: t step_result split: option.splits)
  next
    case (Cons a p')
    with lk dm show ?thesis by (auto simp: t step_result split: option.splits)
  qed
qed

lemma FromFile_init_fails_iff:
  "FromFile_init inp = Inl e \<longleftrightarrow>
     (\<exists>i<length inp. same_dims (take i inp) \<and> same_feats (take i inp) \<and>
        check_triple (take i inp) (inp ! i) = Some e)"
proof (induction inp rule: rev_induct)
  case Nil
  show ?case by (simp add: FromFile_init_def)
next
  case (snoc t inp)
  let ?P = "\<lambda>xs i. same_dims (take i xs) \<and> same_feats (take i xs) \<and>
        check_triple (take i xs) (xs ! i) = Some e"
  have split: "(\<exists>i<length (inp @ [t]). ?P (inp @ [t]) i) \<longleftrightarrow>
        (\<exists>i<length inp. ?P inp i) \<or> (same_dims inp \<and> same_feats inp \<and> check_triple inp t = Some e)"
    (is "?L \<longleftrightarrow> ?A \<or> ?B")
  proof
    assume ?L
    then obtain i where i: "i < length (inp @ [t])" "?P (inp @ [t]) i" by blast
    show "?A \<or> ?B"
    proof (cases "i < length inp")
      case True
      with i(2) have "?P inp i" by (simp add: nth_append)
      with True show ?thesis by blast
    next
      case False
      with i(1) have "i = length inp" by simp
      with i(2) show ?thesis by simp
    qed
  next
    assume "?A \<or> ?B"
    then show ?L
    proof
      assume ?A
      then obtain i where "i < length inp" "?P inp i" by blast
      then have "i < length (inp @ [t])" "?P (inp @ [t]) i" by (simp_all add: nth_append)
      then show ?L by blast
    next
      assume ?B
      then have "?P (inp @ [t]) (length inp)" by simp
      then show ?L by (intro exI [of _ "length inp"]) simp
    qed
  qed
  show ?case
  proof (cases "FromFile_init inp")
    case (Inl e')
    then have "\<not> (same_dims inp \<and> same_feats inp)"
      using FromFile_init_succeeds_iff [of inp] by auto
    with Inl snoc.IH split show ?thesis by (auto simp: FromFile_init_snoc)
  next
    case (Inr m)
    then have inv: "init_inv inp m" by (rule FromFile_init_inv)
    from Inr have ok: "same_dims inp \<and> same_feats inp"
      using FromFile_init_succeeds_iff [of inp] by auto
    from Inr snoc.IH have no: "\<not> (\<exists>i<length inp. ?P inp i)" by simp
    from Inr have "FromFile_init (inp @ [t]) = FromFile_init_step m t"
      by (simp add: FromFile_init_snoc)
    with step_check [OF inv, of t e]
    have 1: "FromFile_init (inp @ [t]) = Inl e \<longleftrightarrow> check_triple inp t = Some e" by simp
    from split ok no
    have 2: "(\<exists>i<length (inp @ [t]). ?P (inp @ [t]) i) \<longleftrightarrow> check_triple inp t = Some e" by blast
    from 1 2 show ?thesis by (simp only:)
  qed
qed

lemma check_triple_dimensions:
  "check_triple p t = Some (AssertionError Mismatching_dimensions) \<longleftrightarrow>
     p \<noteq> [] \<and> length (snd (snd t)) \<noteq> length (snd (snd (hd p)))"
  by (cases t) (auto split: option.splits)

lemma ex4_eval:
  "FromFile_init [(''S'', [''A''], [1, 0]), (''S'', [''B''], [1])] =
     Inl (AssertionError Mismatching_dimensions)"
  by (simp add: FromFile_init_def FromFile_init_step_def defaultdict_getitem_def)

section \<open>Lemmas: the indicator model and its caches\<close>

lemma bind_simps:
  "m s = (Inl e, s') \<Longrightarrow> bind m f s = (Inl e, s')"
  "m s = (Inr a, s') \<Longrightarrow> bind m f s = f a s'"
  by (simp_all add: bind_def)

lemma list_index_Inr_iff:
  "list_index xs a = Inr i \<longleftrightarrow> i < length xs \<and> xs ! i = a \<and> (\<forall>j<i. xs ! j \<noteq> a)"
proof (induction xs arbitrary: i)
  case Nil
  show ?case by simp
next
  case (Cons x xs)
  show ?case
  proof (cases "x = a")
    case True
    then show ?thesis by (cases i) auto
  next
    case False
    show ?thesis
    proof (cases i)
      case 0
      with False show ?thesis by (auto split: sum.splits)
    next
      case (Suc k)
      have "(\<forall>j<Suc k. (x # xs) ! j \<noteq> a) \<longleftrightarrow> (\<forall>j<k. xs ! j \<noteq> a)"
        using False by (auto simp: less_Suc_eq_0_disj)
      with False Suc Cons.IH [of k] show ?thesis by (auto split: sum.splits)
    qed
  qed
qed

lemma list_index_Inl: "list_index xs a = Inl e \<longleftrightarrow> e = ValueError \<and> a \<notin> set xs"
  by (induction xs) (auto split: sum.splits)

lemma list_index_mem: "a \<in> set xs \<Longrightarrow> \<exists>i. list_index xs a = Inr i"
  by (cases "list_index xs a") (auto simp: list_index_Inl)

lemma Basic_find_index_inv:
  assumes "Basic_inv rl s"
  shows "fst (Basic_find_index l r s) = list_index rl (l, r)"
    and "Basic_inv rl (snd (Basic_find_index l r s))"
  using assms
  by (auto simp: Basic_find_index_def Basic_inv_def split: option.splits sum.splits)

lemma Basic_featvec_inv:
  assumes "Basic_inv rl s"
  shows "fst (Basic_featvec l r s) =
           ebind (list_index rl (l, r)) (\<lambda>i. Inr (one_hot (length rl) i))"
    and "Basic_inv rl (snd (Basic_featvec l r s))"
proof -
  show "fst (Basic_featvec l r s) =
           ebind (list_index rl (l, r)) (\<lambda>i. Inr (one_hot (length rl) i))"
  proof (cases "priv_featvecdict s (l, r)")
    case (Some v)
    with assms obtain i where "list_index rl (l, r) = Inr i" "v = one_hot (length rl) i"
      unfolding Basic_inv_def by blast
    with Some show ?thesis by (simp add: Basic_featvec_def)
  next
    case None
    obtain res s1 where fi: "Basic_find_index l r s = (res, s1)" by (cases "Basic_find_index l r s")
    from Basic_find_index_inv [OF assms, of l r] fi
    have res: "list_index rl (l, r) = res" and s1: "Basic_inv rl s1" by simp_all
    show ?thesis
    proof (cases res)
      case (Inl e)
      with None fi res show ?thesis by (simp add: Basic_featvec_def bind_def)
    next
      case (Inr i)
      with res have "i < length rl" by (simp add: list_index_Inr_iff)
      with None fi res Inr s1 show ?thesis
        by (simp add: Basic_featvec_def bind_def Basic_dim_def lift_def np_zeros_def
            np_put_def one_hot_def Basic_inv_def)
    qed
  qed
next
  show "Basic_inv rl (snd (Basic_featvec l r s))"
  proof (cases "priv_featvecdict s (l, r)")
    case (Some v)
    with assms show ?thesis by (auto simp: Basic_featvec_def)
  next
    case None
    obtain res s1 where fi: "Basic_find_index l r s = (res, s1)" by (cases "Basic_find_index l r s")
    from Basic_find_index_inv [OF assms, of l r] fi
    have res: "list_index rl (l, r) = res" and s1: "Basic_inv rl s1" by simp_all
    show ?thesis
    proof (cases res)
      case (Inl e)
      with None fi s1 show ?thesis by (simp add: Basic_featvec_def bind_def)
    next
      case (Inr i)
      with res have "i < length rl" by (simp add: list_index_Inr_iff)
      with None fi res Inr s1 show ?thesis
        by (auto simp: Basic_featvec_def bind_def Basic_dim_def lift_def np_zeros_def
            np_put_def one_hot_def Basic_inv_def)
    qed
  qed
qed

lemma Basic_featvec_dot_inv:
  assumes "Basic_inv rl s"
  shows "fst (Basic_featvec_dot l r w s) = ebind (list_index rl (l, r)) (np_getitem w)"
    and "Basic_inv rl (snd (Basic_featvec_dot l r w s))"
  using Basic_find_index_inv [OF assms, of l r]
  by (cases "Basic_find_index l r s"; cases "fst (Basic_find_index l r s)";
      simp add: Basic_featvec_dot_def bind_def lift_def)+

lemma dot_zeros: "sum_list (map2 (*) w (replicate n (0::real))) = 0"
proof (induction w arbitrary: n)
  case Nil
  show ?case by simp
next
  case (Cons x w)
  then show ?case by (cases n) simp_all
qed

lemma np_dot_one_hot:
  "i < length w \<Longrightarrow> sum_list (map2 (*) w ((replicate (length w) (0::real))[i := 1])) = w ! i"
proof (induction w arbitrary: i)
  case Nil
  then show ?case by simp
next
  case (Cons x w)
  then show ?case by (cases i) (auto simp: dot_zeros)
qed

section \<open>Lemmas: what \<open>lhss\<close> and \<open>rhss\<close> return\<close>

lemma Basic_inv_init: "Basic_inv rl (Basic_init rl)"
  by (simp add: Basic_inv_def Basic_init_def)

lemma ex1_eval:
  "FromFile_init [(''S'', [''A''], [1, 0]), (''S'', [''B''], [0, 1]), (''S'', [''A''], [1, 0])] =
     Inr \<lparr>priv_rules = [(''S'', [([''A''], [1, 0]), ([''B''], [0, 1])])], priv_dim = Some 2\<rparr>"
  by (simp add: FromFile_init_def FromFile_init_step_def defaultdict_getitem_def)

lemma ex2_eval:
  "FromFile_init [(''S'', [''A''], [1])] =
     Inr \<lparr>priv_rules = [(''S'', [([''A''], [1])])], priv_dim = Some 1\<rparr>"
  by (simp add: FromFile_init_def FromFile_init_step_def defaultdict_getitem_def)

lemma FromFile_rhss_result:
  assumes "init_inv inp m"
  shows "\<exists>ys. fst (FromFile_rhss x m) = Inr ys \<and> set ys = {r. \<exists>f. (x, r, f) \<in> set inp}"
proof (cases "map_of (priv_rules m) x")
  case None
  then have "FromFile_lookup m x r = None" for r by (simp add: FromFile_lookup_def)
  with assms have "rule_feats inp x r = None" for r by (simp add: init_inv_def)
  then have "{r. \<exists>f. (x, r, f) \<in> set inp} = {}" by (simp add: rule_feats_None_iff)
  with None show ?thesis by (simp add: FromFile_rhss_def defaultdict_getitem_def)
next
  case (Some d)
  have "r \<in> set (map fst d) \<longleftrightarrow> (\<exists>f. (x, r, f) \<in> set inp)" for r
  proof -
    have "r \<in> set (map fst d) \<longleftrightarrow> map_of d r \<noteq> None" by (simp add: map_of_eq_None_iff)
    also have "\<dots> \<longleftrightarrow> FromFile_lookup m x r \<noteq> None" using Some by (simp add: FromFile_lookup_def)
    also have "\<dots> \<longleftrightarrow> rule_feats inp x r \<noteq> None" using assms by (simp add: init_inv_def)
    also have "\<dots> \<longleftrightarrow> (\<exists>f. (x, r, f) \<in> set inp)" by (simp add: rule_feats_None_iff)
    finally show ?thesis .
  qed
  then have "set (map fst d) = {r. \<exists>f. (x, r, f) \<in> set inp}" by blast
  with Some show ?thesis by (simp add: FromFile_rhss_def defaultdict_getitem_def)
qed

lemma FromFile_lhss_result:
  assumes "init_inv inp m"
  shows "set (map fst (priv_rules m)) = {l. \<exists>r f. (l, r, f) \<in> set inp}"
proof -
  have "l \<in> set (map fst (priv_rules m)) \<longleftrightarrow> (\<exists>r f. (l, r, f) \<in> set inp)" for l
  proof (cases "map_of (priv_rules m) l")
    case None
    then have "FromFile_lookup m l r = None" for r by (simp add: FromFile_lookup_def)
    with assms have "rule_feats inp l r = None" for r by (simp add: init_inv_def)
    then have "\<not> (\<exists>r f. (l, r, f) \<in> set inp)" by (simp add: rule_feats_None_iff)
    with None show ?thesis by (simp add: map_of_eq_None_iff)
  next
    case (Some d)
    then have "(l, d) \<in> set (priv_rules m)" by (rule map_of_SomeD)
    with assms have "d \<noteq> []" by (auto simp: init_inv_def dict_wf_def)
    then obtain r v rest where d: "d = (r, v) # rest" by (cases d) auto
    with Some have "FromFile_lookup m l r = Some v" by (simp add: FromFile_lookup_def)
    with assms have "rule_feats inp l r = Some v" by (simp add: init_inv_def)
    then have "(l, r, v) \<in> set inp" by (rule rule_feats_Some)
    moreover from Some have "l \<in> set (map fst (priv_rules m))"
      by (metis map_of_eq_None_iff option.distinct(1) set_map)
    ultimately show ?thesis by blast
  qed
  then show ?thesis by blast
qed

section \<open>Lemmas: what the methods of the base class return\<close>

lemma returnsD: "returns I m v \<Longrightarrow> I s \<Longrightarrow> fst (m s) = Inr v \<and> I (snd (m s))"
  by (simp add: returns_def)

lemma returns_ret: "returns I (ret v) v"
  by (simp add: returns_def ret_def)

lemma returns_lift: "r = Inr v \<Longrightarrow> returns I (lift r) v"
  by (simp add: returns_def lift_def)

lemma returns_bind:
  assumes "returns I m a" and "returns I (f a) b"
  shows "returns I (bind m f) b"
  unfolding returns_def
proof (intro allI impI)
  fix s assume s: "I s"
  obtain r s1 where m: "m s = (r, s1)" by (cases "m s")
  with returnsD [OF assms(1) s] have r: "r = Inr a" and s1: "I s1" by simp_all
  from m r have "bind m f s = f a s1" by (simp add: bind_def)
  with returnsD [OF assms(2) s1] show "fst (bind m f s) = Inr b \<and> I (snd (bind m f s))" by simp
qed

lemma returns_mapM:
  assumes "\<And>x. x \<in> set xs \<Longrightarrow> returns I (f x) (g x)"
  shows "returns I (mapM f xs) (map g xs)"
  using assms
proof (induction xs)
  case Nil
  show ?case by (simp add: returns_ret)
next
  case (Cons x xs)
  have 1: "returns I (f x) (g x)" by (simp add: Cons.prems)
  have 2: "returns I (mapM f xs) (map g xs)" by (simp add: Cons.IH Cons.prems)
  have "returns I (bind (mapM f xs) (\<lambda>ys. ret (g x # ys))) (g x # map g xs)"
    by (rule returns_bind [OF 2 returns_ret])
  with 1 show ?case by (simp add: returns_bind)
qed

lemma returns_foldM:
  assumes "J a0" and "\<And>a x. J a \<Longrightarrow> x \<in> set xs \<Longrightarrow> returns I (f a x) (g a x) \<and> J (g a x)"
  shows "returns I (foldM f xs a0) (foldl g a0 xs) \<and> J (foldl g a0 xs)"
  using assms
proof (induction xs arbitrary: a0)
  case Nil
  then show ?case by (simp add: returns_ret)
next
  case (Cons x xs)
  from Cons.prems have 1: "returns I (f a0 x) (g a0 x)" and j: "J (g a0 x)" by simp_all
  have 2: "returns I (foldM f xs (g a0 x)) (foldl g (g a0 x) xs) \<and> J (foldl g (g a0 x) xs)"
    by (rule Cons.IH [OF j]) (simp add: Cons.prems(2))
  with 1 show ?case by (simp add: returns_bind)
qed

lemma np_max_Max: "scores \<noteq> [] \<Longrightarrow> np_max scores = Inr (Max (set scores))"
proof (cases scores)
  case Nil
  assume "scores \<noteq> []"
  with Nil show ?thesis by simp
next
  case (Cons a list)
  have "fold max list a = Max (set (a # list))" by (simp only: Max.set_eq_fold)
  with Cons show ?thesis by (simp add: np_max_def)
qed

lemma softmax_code:
  "map (\<lambda>e. e / sum_list (map (\<lambda>s. exp (s - Max (set scores))) scores))
     (map (\<lambda>s. exp (s - Max (set scores))) scores) = softmax scores"
  by (simp add: softmax_def comp_def)

lemma update_append: "k \<notin> fst ` set al \<Longrightarrow> AList.update k v al = al @ [(k, v)]"
  by (induction al) auto

lemma fold_update_zip:
  assumes "distinct (map fst ps)" and "fst ` set ps \<inter> fst ` set acc = {}"
  shows "fold (\<lambda>(y, p) row. AList.update y p row) ps acc = acc @ ps"
  using assms
proof (induction ps arbitrary: acc)
  case Nil
  show ?case by simp
next
  case (Cons a ps)
  obtain y p where a: "a = (y, p)" by (cases a)
  from Cons.prems a have "y \<notin> fst ` set acc" by auto
  then have u: "AList.update y p acc = acc @ [(y, p)]" by (rule update_append)
  from Cons.prems a have "fst ` set ps \<inter> fst ` set (acc @ [(y, p)]) = {}"
    by (auto simp: image_iff) 
  with Cons.IH [of "acc @ [(y, p)]"] Cons.prems a u show ?case by simp
qed

lemma probs_row_returns:
  assumes "implements I cls d xs ys fv" and "length w = d" and "x \<in> set xs" and "ys x \<noteq> []"
  shows "returns I (probs_row cls w x)
           (zip (ys x) (softmax (map (\<lambda>y. dot w (fv x y)) (ys x))))"
proof -
  let ?sc = "map (\<lambda>y. dot w (fv x y)) (ys x)"
  from assms(1,3) have r: "returns I (rhss cls x) (ys x)" and dist: "distinct (ys x)"
    by (simp_all add: implements_def)
  have s: "returns I (mapM (\<lambda>y. score cls w x y) (ys x)) ?sc"
    using assms(1,2,3) by (intro returns_mapM) (simp add: implements_def score_def)
  have mx: "np_max ?sc = Inr (Max (set ?sc))" using assms(4) by (simp add: np_max_Max)
  have z: "fold (\<lambda>(y, p) row. AList.update y p row) (zip (ys x) (softmax ?sc)) [] =
           zip (ys x) (softmax ?sc)"
    using dist by (subst fold_update_zip) (simp_all add: softmax_def)
  have k: "returns I
     (let shifted_exp_scores = map (\<lambda>s. exp (s - Max (set ?sc))) ?sc;
          normalized_probs = map (\<lambda>e. e / sum_list shifted_exp_scores) shifted_exp_scores
      in ret (fold (\<lambda>(y, p) row. AList.update y p row) (zip (ys x) normalized_probs) []))
     (zip (ys x) (softmax ?sc))"
    by (simp only: Let_def softmax_code z returns_ret)
  show ?thesis
    unfolding probs_row_def
    by (rule returns_bind [OF r], rule returns_bind [OF s],
        rule returns_bind [OF returns_lift [OF mx]], rule k)
qed

lemma foldl_update_map:
  assumes "distinct xs" and "set xs \<inter> fst ` set acc = {}"
  shows "foldl (\<lambda>pt x. AList.update x (row x) pt) acc xs = acc @ map (\<lambda>x. (x, row x)) xs"
  using assms
proof (induction xs arbitrary: acc)
  case Nil
  show ?case by simp
next
  case (Cons x xs)
  from Cons.prems have "x \<notin> fst ` set acc" by auto
  then have u: "AList.update x (row x) acc = acc @ [(x, row x)]" by (rule update_append)
  from Cons.prems have "set xs \<inter> fst ` set (acc @ [(x, row x)]) = {}" by auto
  with Cons.IH [of "acc @ [(x, row x)]"] Cons.prems u show ?case by simp
qed

lemma probs_from_model_returns:
  assumes "implements I cls d xs ys fv" and "length w = d" and "\<forall>x \<in> set xs. ys x \<noteq> []"
  shows "returns I (probs_from_model cls w) (prob_table w xs ys fv)"
proof -
  let ?row = "\<lambda>x. zip (ys x) (softmax (map (\<lambda>y. dot w (fv x y)) (ys x)))"
  let ?f = "\<lambda>probtable x. bind (probs_row cls w x) (\<lambda>row. ret (AList.update x row probtable))"
  let ?g = "\<lambda>pt x. AList.update x (?row x) pt"
  from assms(1) have l: "returns I (lhss cls) xs" and dist: "distinct xs"
    by (simp_all add: implements_def)
  have step: "returns I (?f a x) (?g a x) \<and> True" if "x \<in> set xs" for a x
    using probs_row_returns [OF assms(1,2) that] assms(3) that
    by (auto intro: returns_bind returns_ret)
  have "returns I (foldM ?f xs []) (foldl ?g [] xs) \<and> True"
    by (rule returns_foldM [where J = "\<lambda>_. True"]) (simp_all add: step)
  moreover have "foldl ?g [] xs = prob_table w xs ys fv"
    using dist by (simp add: foldl_update_map prob_table_def)
  ultimately have "returns I (foldM ?f xs []) (prob_table w xs ys fv)" by simp
  with l show ?thesis unfolding probs_from_model_def by (rule returns_bind)
qed

lemma softmax_length [simp]: "length (softmax sc) = length sc"
  by (simp add: softmax_def)

lemma np_dot_dot: "length a = length b \<Longrightarrow> np_dot a b = Inr (dot a b)"
  by (simp add: np_dot_def dot_def)

lemma FromFile_implements:
  assumes "init_inv inp m" and "priv_dim m = Some d"
  shows "implements (\<lambda>s. s = m) FromFile_class d
           (FromFile_lhss_of m) (FromFile_rhss_of m) (FromFile_featvec_of m)"
    and "\<forall>x \<in> set (FromFile_lhss_of m). FromFile_rhss_of m x \<noteq> []"
proof -
  from assms(1) have wf: "dict_wf m" by (simp add: init_inv_def)
  from assms have ne: "inp \<noteq> []" and d: "d = length (snd (snd (hd inp)))"
    by (cases inp; simp add: init_inv_def)+
  have dist: "distinct (FromFile_lhss_of m)" using wf by (simp add: dict_wf_def FromFile_lhss_of_def)
  have dm: "returns (\<lambda>s. s = m) (dim FromFile_class) (Some d)"
    using assms(2) by (simp add: returns_def FromFile_class_def FromFile_dim_def)
  have lh: "returns (\<lambda>s. s = m) (lhss FromFile_class) (FromFile_lhss_of m)"
    by (simp add: returns_def FromFile_class_def FromFile_lhss_def FromFile_lhss_of_def)
  have row: "distinct (FromFile_rhss_of m x) \<and> FromFile_rhss_of m x \<noteq> [] \<and>
       returns (\<lambda>s. s = m) (rhss FromFile_class x) (FromFile_rhss_of m x) \<and>
       (\<forall>y \<in> set (FromFile_rhss_of m x). length (FromFile_featvec_of m x y) = d \<and>
          returns (\<lambda>s. s = m) (featvec FromFile_class x y) (FromFile_featvec_of m x y) \<and>
          (\<forall>w. length w = d \<longrightarrow>
             returns (\<lambda>s. s = m) (featvec_dot FromFile_class x y w)
               (dot w (FromFile_featvec_of m x y))))"
    if "x \<in> set (FromFile_lhss_of m)" for x
  proof -
    from that obtain dct where dct: "map_of (priv_rules m) x = Some dct"
      by (cases "map_of (priv_rules m) x") (auto simp: FromFile_lhss_of_def map_of_eq_None_iff)
    then have "(x, dct) \<in> set (priv_rules m)" by (rule map_of_SomeD)
    with wf have dd: "distinct (map fst dct)" and dne: "dct \<noteq> []" by (auto simp: dict_wf_def)
    have r: "returns (\<lambda>s. s = m) (rhss FromFile_class x) (FromFile_rhss_of m x)"
      using dct by (simp add: returns_def FromFile_class_def FromFile_rhss_def
          FromFile_rhss_of_def defaultdict_getitem_def)
    have cell: "length (FromFile_featvec_of m x y) = d \<and>
          returns (\<lambda>s. s = m) (featvec FromFile_class x y) (FromFile_featvec_of m x y) \<and>
          (\<forall>w. length w = d \<longrightarrow>
             returns (\<lambda>s. s = m) (featvec_dot FromFile_class x y w)
               (dot w (FromFile_featvec_of m x y)))"
      if "y \<in> set (map fst dct)" for y
    proof -
      from that obtain v where v: "map_of dct y = Some v"
        by (cases "map_of dct y") (auto simp: map_of_eq_None_iff)
      with dct have lk: "FromFile_lookup m x y = Some v" by (simp add: FromFile_lookup_def)
      with assms(1) have "rule_feats inp x y = Some v" by (simp add: init_inv_def)
      then have "(x, y, v) \<in> set inp" by (rule rule_feats_Some)
      with assms(1) d have len: "length v = d" by (force simp: init_inv_def same_dims_def)
      have f: "returns (\<lambda>s. s = m) (featvec FromFile_class x y) v"
        using dct v by (simp add: returns_def FromFile_class_def FromFile_featvec_def
            defaultdict_getitem_def dict_getitem_def)
      have fd: "returns (\<lambda>s. s = m) (featvec_dot FromFile_class x y w) (dot w v)"
        if "length w = d" for w
      proof -
        have "returns (\<lambda>s. s = m) (bind (FromFile_featvec x y) (\<lambda>fv. lift (np_dot w fv))) (dot w v)"
          using f that len
          by (intro returns_bind [where a = v] returns_lift np_dot_dot)
             (simp_all add: FromFile_class_def)
        then show ?thesis by (simp add: FromFile_class_def LogLinModel_featvec_dot_def)
      qed
      from len f fd lk show ?thesis by (simp add: FromFile_featvec_of_def)
    qed
    from dd dne r cell dct show ?thesis by (simp add: FromFile_rhss_of_def)
  qed
  from dist dm lh row show "implements (\<lambda>s. s = m) FromFile_class d
           (FromFile_lhss_of m) (FromFile_rhss_of m) (FromFile_featvec_of m)"
    unfolding implements_def by blast
  from row show "\<forall>x \<in> set (FromFile_lhss_of m). FromFile_rhss_of m x \<noteq> []" by blast
qed

lemma Basic_implements:
  shows "implements (Basic_inv rl) Basic_class (length rl)
           (Basic_lhss_of rl) (Basic_rhss_of rl) (Basic_featvec_of rl)"
    and "\<forall>x \<in> set (Basic_lhss_of rl). Basic_rhss_of rl x \<noteq> []"
proof -
  have dist: "distinct (Basic_lhss_of rl)" by (simp add: Basic_lhss_of_def list_of_set_def)
  have dm: "returns (Basic_inv rl) (dim Basic_class) (Some (length rl))"
    by (simp add: returns_def Basic_class_def Basic_dim_def Basic_inv_def)
  have lh: "returns (Basic_inv rl) (lhss Basic_class) (Basic_lhss_of rl)"
    by (simp add: returns_def Basic_class_def Basic_lhss_def Basic_lhss_of_def Basic_inv_def)
  have row: "distinct (Basic_rhss_of rl x) \<and> Basic_rhss_of rl x \<noteq> [] \<and>
       returns (Basic_inv rl) (rhss Basic_class x) (Basic_rhss_of rl x) \<and>
       (\<forall>y \<in> set (Basic_rhss_of rl x). length (Basic_featvec_of rl x y) = length rl \<and>
          returns (Basic_inv rl) (featvec Basic_class x y) (Basic_featvec_of rl x y) \<and>
          (\<forall>w. length w = length rl \<longrightarrow>
             returns (Basic_inv rl) (featvec_dot Basic_class x y w)
               (dot w (Basic_featvec_of rl x y))))"
    if "x \<in> set (Basic_lhss_of rl)" for x
  proof -
    from that obtain r0 where "(x, r0) \<in> set rl" by (auto simp: Basic_lhss_of_def list_of_set_def)
    then have "r0 \<in> set (Basic_rhss_of rl x)" by (force simp: Basic_rhss_of_def list_of_set_def)
    then have ne: "Basic_rhss_of rl x \<noteq> []" by auto
    have dd: "distinct (Basic_rhss_of rl x)" by (simp add: Basic_rhss_of_def list_of_set_def)
    have r: "returns (Basic_inv rl) (rhss Basic_class x) (Basic_rhss_of rl x)"
      by (simp add: returns_def Basic_class_def Basic_rhss_def Basic_rhss_of_def Basic_inv_def)
    have cell: "length (Basic_featvec_of rl x y) = length rl \<and>
          returns (Basic_inv rl) (featvec Basic_class x y) (Basic_featvec_of rl x y) \<and>
          (\<forall>w. length w = length rl \<longrightarrow>
             returns (Basic_inv rl) (featvec_dot Basic_class x y w)
               (dot w (Basic_featvec_of rl x y)))"
      if "y \<in> set (Basic_rhss_of rl x)" for y
    proof -
      from that have "(x, y) \<in> set rl" by (auto simp: Basic_rhss_of_def list_of_set_def)
      then obtain i where i: "list_index rl (x, y) = Inr i" by (blast dest: list_index_mem)
      then have il: "i < length rl" by (simp add: list_index_Inr_iff)
      have fo: "Basic_featvec_of rl x y = one_hot (length rl) i"
        using i by (simp add: Basic_featvec_of_def)
      have len: "length (Basic_featvec_of rl x y) = length rl" by (simp add: fo one_hot_def)
      have f: "returns (Basic_inv rl) (featvec Basic_class x y) (Basic_featvec_of rl x y)"
        using Basic_featvec_inv [of rl _ x y] i fo
        by (simp add: returns_def Basic_class_def)
      have fd: "returns (Basic_inv rl) (featvec_dot Basic_class x y w)
               (dot w (Basic_featvec_of rl x y))" if "length w = length rl" for w
      proof -
        have "dot w (one_hot (length rl) i) = w ! i"
          using np_dot_one_hot [of i w] il that by (simp add: dot_def one_hot_def)
        then show ?thesis
          using Basic_featvec_dot_inv [of rl _ x y w] i il that fo
          by (simp add: returns_def Basic_class_def np_getitem_def)
      qed
      from len f fd show ?thesis by blast
    qed
    from dd ne r cell show ?thesis by blast
  qed
  from dist dm lh row show "implements (Basic_inv rl) Basic_class (length rl)
           (Basic_lhss_of rl) (Basic_rhss_of rl) (Basic_featvec_of rl)"
    unfolding implements_def by blast
  from row show "\<forall>x \<in> set (Basic_lhss_of rl). Basic_rhss_of rl x \<noteq> []" by blast
qed

lemma logprob_Some:
  "table_lookup pt l r = Some p \<Longrightarrow>
   logprob pt l r = (if p = 0 then Inl ProbabilityZeroError else Inr (ln p))"
  by (auto simp: logprob_def table_lookup_def dict_getitem_def split: option.splits)

lemma emap_cases:
  assumes "\<And>x. x \<in> set xs \<Longrightarrow> f x = (if bad x then Inl e0 else Inr (g x))"
  shows "emap f xs = (if \<exists>x \<in> set xs. bad x then Inl e0 else Inr (map g xs))"
  using assms by (induction xs) auto

lemma efold_cases:
  assumes "\<And>a x. x \<in> set xs \<Longrightarrow> f a x = (if bad x then Inl e0 else Inr (g a x))"
  shows "efold f xs a = (if \<exists>x \<in> set xs. bad x then Inl e0 else Inr (foldl g a xs))"
  using assms by (induction xs arbitrary: a) auto

lemma foldl_add_sum: "foldl (\<lambda>ll x. ll + h x) a xs = a + (\<Sum>x\<leftarrow>xs. h x :: real)"
  by (induction xs arbitrary: a) auto

lemma loglikelihood_try_result:
  assumes "td_in_table pt td"
  shows "loglikelihood_try pt td =
           (if zero_referenced pt td then Inl ProbabilityZeroError else Inr (loglik_sum pt td))"
proof -
  let ?badrow = "\<lambda>(l, d). \<exists>(r, freq) \<in> set d. table_lookup pt l r = Some 0"
  let ?rowsum = "\<lambda>(l, d). \<Sum>(r, freq)\<leftarrow>d. of_int freq * ln (the (table_lookup pt l r))"
  let ?step = "\<lambda>ll (l, d).
              ebind (emap (\<lambda>(r, freq).
                             ebind (logprob pt l r) (\<lambda>lp. Inr (of_int freq * lp))) d)
                (\<lambda>terms. Inr (ll + sum_list terms))"
  have step: "?step ll ld = (if ?badrow ld then Inl ProbabilityZeroError else Inr (ll + ?rowsum ld))"
    if "ld \<in> set td" for ll ld
  proof -
    obtain l d where ld: "ld = (l, d)" by (cases ld)
    have cell: "(case rf of (r, freq) \<Rightarrow> ebind (logprob pt l r) (\<lambda>lp. Inr (of_int freq * lp))) =
        (if (case rf of (r, freq) \<Rightarrow> table_lookup pt l r = Some 0) then Inl ProbabilityZeroError
         else Inr (case rf of (r, freq) \<Rightarrow> of_int freq * ln (the (table_lookup pt l r))))"
      if "rf \<in> set d" for rf
    proof -
      obtain r freq where rf: "rf = (r, freq)" by (cases rf)
      from assms \<open>ld \<in> set td\<close> ld \<open>rf \<in> set d\<close> rf obtain p where "table_lookup pt l r = Some p"
        by (fastforce simp: td_in_table_def)
      then show ?thesis by (simp add: rf logprob_Some)
    qed
    have "emap (\<lambda>(r, freq). ebind (logprob pt l r) (\<lambda>lp. Inr (of_int freq * lp))) d =
       (if \<exists>rf \<in> set d. (case rf of (r, freq) \<Rightarrow> table_lookup pt l r = Some 0)
        then Inl ProbabilityZeroError
        else Inr (map (\<lambda>rf. case rf of (r, freq) \<Rightarrow> of_int freq * ln (the (table_lookup pt l r))) d))"
      by (rule emap_cases) (rule cell)
    then show ?thesis by (simp add: ld)
  qed
  have "efold ?step td 0 =
      (if \<exists>ld \<in> set td. ?badrow ld then Inl ProbabilityZeroError
       else Inr (foldl (\<lambda>ll ld. ll + ?rowsum ld) 0 td))"
    by (rule efold_cases) (rule step)
  then show ?thesis
    by (simp add: loglikelihood_try_def zero_referenced_def loglik_sum_def foldl_add_sum)
qed

lemma loglikelihood_of_result:
  assumes "td_in_table pt td"
  shows "loglikelihood_of pt td =
           Inr (if zero_referenced pt td then finfo_float_min else loglik_sum pt td)"
  by (simp add: loglikelihood_of_def loglikelihood_try_result [OF assms])

lemma map_of_map_key: "x \<in> set xs \<Longrightarrow> map_of (map (\<lambda>x. (x, f x)) xs) x = Some (f x)"
  by (induction xs) auto

lemma table_lookup_prob_table:
  assumes "l \<in> set xs" and "r \<in> set (ys l)"
  shows "\<exists>p. table_lookup (prob_table w xs ys fv) l r = Some p"
proof -
  let ?row = "zip (ys l) (softmax (map (\<lambda>y. dot w (fv l y)) (ys l)))"
  have "map_of (prob_table w xs ys fv) l = Some ?row"
    unfolding prob_table_def using assms(1) by (rule map_of_map_key)
  moreover have "\<exists>p. map_of ?row r = Some p"
    using assms(2) by (subst map_of_zip_is_Some [symmetric]) simp_all
  ultimately show ?thesis by (simp add: table_lookup_def)
qed

lemma td_in_model_table:
  "td_in_model xs ys td \<Longrightarrow> td_in_table (prob_table w xs ys fv) td"
  unfolding td_in_model_def td_in_table_def
  using table_lookup_prob_table by fastforce

lemma loglikelihood_returns:
  assumes "implements I cls d xs ys fv" and "length w = d" and "\<forall>x \<in> set xs. ys x \<noteq> []"
    and "td_in_table (prob_table w xs ys fv) td"
  shows "returns I (loglikelihood cls td w)
     (if zero_referenced (prob_table w xs ys fv) td then finfo_float_min
      else loglik_sum (prob_table w xs ys fv) td)"
  unfolding loglikelihood_def
  by (rule returns_bind [OF probs_from_model_returns [OF assms(1,2,3)]])
     (rule returns_lift [OF loglikelihood_of_result [OF assms(4)]])

lemma vec_acc_length:
  "\<forall>x \<in> set xs. length (h x) = length acc \<Longrightarrow> length (vec_acc h acc xs) = length acc"
  unfolding vec_acc_def by (induction xs arbitrary: acc) auto

lemma vec_acc_nth:
  "\<forall>x \<in> set xs. length (h x) = length acc \<Longrightarrow> k < length acc \<Longrightarrow>
   vec_acc h acc xs ! k = acc ! k + (\<Sum>x\<leftarrow>xs. h x ! k)"
  unfolding vec_acc_def
proof (induction xs arbitrary: acc)
  case Nil
  show ?case by simp
next
  case (Cons x xs)
  have "foldl (\<lambda>a x. map2 (+) a (h x)) (map2 (+) acc (h x)) xs ! k =
          map2 (+) acc (h x) ! k + (\<Sum>x\<leftarrow>xs. h x ! k)"
    using Cons.prems by (intro Cons.IH) simp_all
  with Cons.prems show ?case by simp
qed

lemma dict_lookup2:
  "table_lookup pt l r = Some p \<Longrightarrow>
   ebind (dict_getitem pt l) (\<lambda>row. dict_getitem row r) = Inr p"
  by (auto simp: table_lookup_def dict_getitem_def split: option.splits)

lemma np_iadd_same: "length a = length b \<Longrightarrow> np_iadd a b = Inr (map2 (+) a b)"
  by (simp add: np_iadd_def)

lemma np_sub_same: "length a = length b \<Longrightarrow> np_sub a b = Inr (map2 (-) a b)"
  by (simp add: np_sub_def)

lemma np_scale_length [simp]: "length (np_scale c v) = length v"
  by (simp add: np_scale_def)

lemma implements_featvec:
  "implements I cls d xs ys fv \<Longrightarrow> l \<in> set xs \<Longrightarrow> r \<in> set (ys l) \<Longrightarrow>
   returns I (featvec cls l r) (fv l r) \<and> length (fv l r) = d"
  by (simp add: implements_def)

lemma expectation_row_returns:
  assumes "implements I cls d xs ys fv" and "l \<in> set xs"
  shows "returns I (expectation_row cls (prob_table w xs ys fv) l)
           (expectation_vec w xs ys fv d l)"
    and "length (expectation_vec w xs ys fv d l) = d"
proof -
  let ?pt = "prob_table w xs ys fv"
  let ?h = "\<lambda>r'. np_scale (prob_of w xs ys fv l r') (fv l r')"
  let ?f = "\<lambda>foo rhsp.
              bind (featvec cls l rhsp) (\<lambda>fv.
              bind (lift (ebind (dict_getitem ?pt l) (\<lambda>row. dict_getitem row rhsp))) (\<lambda>p.
              lift (np_iadd foo (np_scale p fv))))"
  let ?g = "\<lambda>a x. map2 (+) a (?h x)"
  from assms have dm: "returns I (dim cls) (Some d)" and rh: "returns I (rhss cls l) (ys l)"
    by (simp_all add: implements_def)
  have z: "np_zeros (Some d) = Inr (replicate d 0)" by (simp add: np_zeros_def)
  have step: "returns I (?f a r') (?g a r') \<and> length (?g a r') = d"
    if "length a = d" "r' \<in> set (ys l)" for a r'
  proof -
    from implements_featvec [OF assms that(2)]
    have f: "returns I (featvec cls l r') (fv l r')" and len: "length (fv l r') = d" by simp_all
    from table_lookup_prob_table [of l xs r' ys w fv] assms(2) that(2)
    have "table_lookup ?pt l r' = Some (prob_of w xs ys fv l r')" by (auto simp: prob_of_def)
    then have lk: "ebind (dict_getitem ?pt l) (\<lambda>row. dict_getitem row r') =
                   Inr (prob_of w xs ys fv l r')" by (rule dict_lookup2)
    have ia: "np_iadd a (?h r') = Inr (?g a r')" using that(1) len by (simp add: np_iadd_same)
    have "returns I (?f a r') (?g a r')"
      by (rule returns_bind [OF f], rule returns_bind [OF returns_lift [OF lk]],
          rule returns_lift [OF ia])
    with that(1) len show ?thesis by simp
  qed
  have fl: "returns I (foldM ?f (ys l) (replicate d 0)) (foldl ?g (replicate d 0) (ys l)) \<and>
        length (foldl ?g (replicate d 0) (ys l)) = d"
  proof (rule returns_foldM [where J = "\<lambda>a. length a = d"])
    show "length (replicate d (0::real)) = d" by simp
  next
    fix a :: vec and x assume "length a = d" "x \<in> set (ys l)"
    then show "returns I (?f a x) (?g a x) \<and> length (?g a x) = d" by (rule step)
  qed
  have e: "foldl ?g (replicate d 0) (ys l) = expectation_vec w xs ys fv d l"
    by (simp add: expectation_vec_def vec_acc_def)
  from fl e show "length (expectation_vec w xs ys fv d l) = d" by simp
  from fl e have "returns I (foldM ?f (ys l) (replicate d 0)) (expectation_vec w xs ys fv d l)"
    by simp
  then show "returns I (expectation_row cls ?pt l) (expectation_vec w xs ys fv d l)"
    unfolding expectation_row_def
    by (intro returns_bind [OF dm] returns_bind [OF returns_lift [OF z]] returns_bind [OF rh])
qed

lemma loglhdgrad_returns:
  assumes "implements I cls d xs ys fv" and "length w = d" and "\<forall>x \<in> set xs. ys x \<noteq> []"
    and "td_in_model xs ys td"
  shows "returns I (loglhdgrad cls td w) (loglhdgrad_vec w xs ys fv d td)"
    and "length (loglhdgrad_vec w xs ys fv d td) = d"
proof -
  let ?pt = "prob_table w xs ys fv"
  let ?E = "expectation_vec w xs ys fv d"
  let ?ex = "map (\<lambda>l. (l, ?E l)) xs"
  let ?h = "\<lambda>l (r, freq). np_scale (of_int freq) (map2 (-) (fv l r) (?E l))"
  from assms(1) have dm: "returns I (dim cls) (Some d)" and lh: "returns I (lhss cls) xs"
    and dist: "distinct xs" by (simp_all add: implements_def)
  have z: "np_zeros (Some d) = Inr (replicate d 0)" by (simp add: np_zeros_def)
  \<comment> \<open>the first loop\<close>
  let ?f1 = "\<lambda>expectation l.
               bind (expectation_row cls ?pt l) (\<lambda>foo. ret (AList.update l foo expectation))"
  let ?g1 = "\<lambda>ex l. AList.update l (?E l) ex"
  have "returns I (foldM ?f1 xs []) (foldl ?g1 [] xs) \<and> True"
  proof (rule returns_foldM [where J = "\<lambda>_. True"])
    show True ..
  next
    fix a :: "(lhs \<times> vec) list" and x assume "x \<in> set xs"
    then have "returns I (?f1 a x) (?g1 a x)"
      by (intro returns_bind [OF expectation_row_returns(1) [OF assms(1)]] returns_ret)
    then show "returns I (?f1 a x) (?g1 a x) \<and> True" by simp
  qed
  moreover have "foldl ?g1 [] xs = ?ex" using dist by (simp add: foldl_update_map)
  ultimately have loop1: "returns I (foldM ?f1 xs []) ?ex" by simp
  \<comment> \<open>the second loop\<close>
  have inner: "returns I (foldM (loglhdgrad_step cls ?ex l) d' res) (vec_acc (?h l) res d') \<and>
               length (vec_acc (?h l) res d') = d"
    if "length res = d" and "(l, d') \<in> set td" for res l d'
  proof -
    from that(2) assms(4) have l: "l \<in> set xs" and rs: "\<forall>(r, freq) \<in> set d'. r \<in> set (ys l)"
      by (auto simp: td_in_model_def)
    have El: "length (?E l) = d" by (rule expectation_row_returns(2) [OF assms(1) l])
    have ex: "dict_getitem ?ex l = Inr (?E l)"
      using l by (simp add: dict_getitem_def map_of_map_key)
    have step: "returns I (loglhdgrad_step cls ?ex l a rf) (map2 (+) a (?h l rf)) \<and>
                length (map2 (+) a (?h l rf)) = d"
      if "length a = d" "rf \<in> set d'" for a rf
    proof -
      obtain r freq where rf: "rf = (r, freq)" by (cases rf)
      with rs that(2) have r: "r \<in> set (ys l)" by auto
      from implements_featvec [OF assms(1) l r]
      have f: "returns I (featvec cls l r) (fv l r)" and len: "length (fv l r) = d" by simp_all
      have sb: "np_sub (fv l r) (?E l) = Inr (map2 (-) (fv l r) (?E l))"
        using len El by (simp add: np_sub_same)
      let ?v = "np_scale (of_int freq) (map2 (-) (fv l r) (?E l))"
      have ia: "np_iadd a ?v = Inr (map2 (+) a ?v)"
        using that(1) len El by (simp add: np_iadd_same)
      have "returns I (loglhdgrad_step cls ?ex l a (r, freq)) (map2 (+) a ?v)"
        unfolding loglhdgrad_step_def prod.case
        by (rule returns_bind [OF f], rule returns_bind [OF returns_lift [OF ex]],
            rule returns_bind [OF returns_lift [OF sb]], rule returns_lift [OF ia])
      then have "returns I (loglhdgrad_step cls ?ex l a rf) (map2 (+) a (?h l rf))"
        by (simp add: rf)
      moreover have "length (map2 (+) a (?h l rf)) = d" using that(1) len El by (simp add: rf)
      ultimately show ?thesis by simp
    qed
    have "returns I (foldM (loglhdgrad_step cls ?ex l) d' res)
            (foldl (\<lambda>a x. map2 (+) a (?h l x)) res d') \<and>
          length (foldl (\<lambda>a x. map2 (+) a (?h l x)) res d') = d"
    proof (rule returns_foldM [where J = "\<lambda>a. length a = d"])
      show "length res = d" by (rule that(1))
    next
      fix a :: vec and x assume "length a = d" "x \<in> set d'"
      then show "returns I (loglhdgrad_step cls ?ex l a x) (map2 (+) a (?h l x)) \<and>
                 length (map2 (+) a (?h l x)) = d" by (rule step)
    qed
    then show ?thesis by (simp add: vec_acc_def)
  qed
  let ?f2 = "\<lambda>result (l, d'). foldM (loglhdgrad_step cls ?ex l) d' result"
  let ?g2 = "\<lambda>res (l, d'). vec_acc (?h l) res d'"
  have loop2: "returns I (foldM ?f2 td (replicate d 0)) (foldl ?g2 (replicate d 0) td) \<and>
               length (foldl ?g2 (replicate d 0) td) = d"
  proof (rule returns_foldM [where J = "\<lambda>a. length a = d"])
    show "length (replicate d (0::real)) = d" by simp
  next
    fix a :: vec and x assume a: "length a = d" and x: "x \<in> set td"
    obtain l d' where ld: "x = (l, d')" by (cases x)
    from inner [OF a x [unfolded ld]]
    show "returns I (?f2 a x) (?g2 a x) \<and> length (?g2 a x) = d" by (simp add: ld)
  qed
  have e: "foldl ?g2 (replicate d 0) td = loglhdgrad_vec w xs ys fv d td"
    by (simp add: loglhdgrad_vec_def)
  from loop2 e show "length (loglhdgrad_vec w xs ys fv d td) = d" by simp
  from loop2 e have l2: "returns I (foldM ?f2 td (replicate d 0)) (loglhdgrad_vec w xs ys fv d td)"
    by simp
  show "returns I (loglhdgrad cls td w) (loglhdgrad_vec w xs ys fv d td)"
    unfolding loglhdgrad_def
    by (rule returns_bind [OF probs_from_model_returns [OF assms(1,2,3)]],
        rule returns_bind [OF lh], rule returns_bind [OF loop1], rule returns_bind [OF dm],
        rule returns_bind [OF returns_lift [OF z]], rule l2)
qed

lemma expectation_vec_nth:
  assumes "implements I cls d xs ys fv" and "l \<in> set xs" and "k < d"
  shows "expectation_vec w xs ys fv d l ! k = expectation_spec w xs ys fv l k"
proof -
  let ?h = "\<lambda>r'. np_scale (prob_of w xs ys fv l r') (fv l r')"
  have len: "\<forall>r' \<in> set (ys l). length (?h r') = length (replicate d (0::real))"
    using implements_featvec [OF assms(1,2)] by simp
  have "vec_acc ?h (replicate d 0) (ys l) ! k = replicate d 0 ! k + (\<Sum>r'\<leftarrow>ys l. ?h r' ! k)"
    using len assms(3) by (intro vec_acc_nth) simp_all
  moreover have "(\<Sum>r'\<leftarrow>ys l. ?h r' ! k) = (\<Sum>r'\<leftarrow>ys l. prob_of w xs ys fv l r' * fv l r' ! k)"
    using implements_featvec [OF assms(1,2)] assms(3)
    by (intro arg_cong [where f = sum_list] map_cong refl) (simp add: np_scale_def)
  ultimately show ?thesis using assms(3) by (simp add: expectation_vec_def expectation_spec_def)
qed

lemma loglhdgrad_fold_nth:
  assumes "implements I cls d xs ys fv" and "td_in_model xs ys td" and "k < d" and "length acc = d"
  shows "length (foldl (\<lambda>res (l, d').
              vec_acc (\<lambda>(r, freq). np_scale (of_int freq)
                         (map2 (-) (fv l r) (expectation_vec w xs ys fv d l))) res d') acc td) = d \<and>
         foldl (\<lambda>res (l, d').
              vec_acc (\<lambda>(r, freq). np_scale (of_int freq)
                         (map2 (-) (fv l r) (expectation_vec w xs ys fv d l))) res d') acc td ! k =
         acc ! k + grad_loglikelihood_spec w xs ys fv td k"
  using assms(2,4)
proof (induction td arbitrary: acc)
  case Nil
  then show ?case by (simp add: grad_loglikelihood_spec_def)
next
  case (Cons a td)
  obtain l d' where a: "a = (l, d')" by (cases a)
  let ?E = "expectation_vec w xs ys fv d l"
  let ?h = "\<lambda>(r, freq). np_scale (of_int freq) (map2 (-) (fv l r) ?E)"
  from Cons.prems(1) a have l: "l \<in> set xs" and rs: "\<forall>(r, freq) \<in> set d'. r \<in> set (ys l)"
    and rest: "td_in_model xs ys td" by (auto simp: td_in_model_def)
  have El: "length ?E = d" by (rule expectation_row_returns(2) [OF assms(1) l])
  have len: "\<forall>rf \<in> set d'. length (?h rf) = length acc"
    using rs implements_featvec [OF assms(1) l] El Cons.prems(2) by (auto split: prod.splits)
  have la: "length (vec_acc ?h acc d') = d" using len Cons.prems(2) by (simp add: vec_acc_length)
  have "vec_acc ?h acc d' ! k = acc ! k + (\<Sum>rf\<leftarrow>d'. ?h rf ! k)"
    using len assms(3) Cons.prems(2) by (intro vec_acc_nth) simp_all
  moreover have "(\<Sum>rf\<leftarrow>d'. ?h rf ! k) =
      (\<Sum>(r, freq)\<leftarrow>d'. of_int freq * (fv l r ! k - expectation_spec w xs ys fv l k))"
  proof (intro arg_cong [where f = sum_list] map_cong refl)
    fix rf assume rf: "rf \<in> set d'"
    obtain r freq where e: "rf = (r, freq)" by (cases rf)
    with rs rf have "r \<in> set (ys l)" by auto
    with implements_featvec [OF assms(1) l] have "length (fv l r) = d" by simp
    with El assms(3) expectation_vec_nth [OF assms(1) l assms(3), of w]
    show "?h rf ! k = (case rf of (r, freq) \<Rightarrow>
        of_int freq * (fv l r ! k - expectation_spec w xs ys fv l k))"
      by (simp add: e np_scale_def)
  qed
  ultimately have hd: "vec_acc ?h acc d' ! k = acc ! k +
      (\<Sum>(r, freq)\<leftarrow>d'. of_int freq * (fv l r ! k - expectation_spec w xs ys fv l k))" by simp
  from Cons.IH [OF rest la] hd show ?case
    by (simp add: a grad_loglikelihood_spec_def)
qed

lemma gradient_returns:
  assumes "implements I cls d xs ys fv" and "length w = d" and "\<forall>x \<in> set xs. ys x \<noteq> []"
    and "td_in_model xs ys td"
  shows "\<exists>g. returns I (gradient cls td lam w) g \<and> length g = d \<and>
             (\<forall>k<d. g ! k = gradient_spec lam w xs ys fv td k)"
proof -
  let ?G = "loglhdgrad_vec w xs ys fv d td"
  let ?g = "map2 (-) (np_scale lam w) ?G"
  note lg = loglhdgrad_returns [OF assms]
  have sb: "np_sub (penaltygrad lam w) ?G = Inr ?g"
    using lg(2) assms(2) by (simp add: penaltygrad_def np_sub_same)
  have r: "returns I (gradient cls td lam w) ?g"
    unfolding gradient_def by (rule returns_bind [OF lg(1)], rule returns_lift [OF sb])
  have len: "length ?g = d" using lg(2) assms(2) by simp
  have nth: "?g ! k = gradient_spec lam w xs ys fv td k" if "k < d" for k
  proof -
    from loglhdgrad_fold_nth [OF assms(1,4) that, of "replicate d 0" w]
    have "?G ! k = grad_loglikelihood_spec w xs ys fv td k"
      using that by (simp add: loglhdgrad_vec_def)
    with that lg(2) assms(2) show ?thesis by (simp add: gradient_spec_def np_scale_def)
  qed
  from r len nth show ?thesis by blast
qed

section \<open>Lemmas: outcomes that do not depend on the state\<close>


























section \<open>Lemmas: invariants that every evaluation keeps\<close>


















































section \<open>Lemmas: the floor of the log-likelihood\<close>

lemma pow_split: "(2::real) ^ 1024 = 2 ^ 53 * 2 ^ 971"
proof -
  have "(1024::nat) = 53 + 971" by simp
  then show ?thesis by (simp only: power_add)
qed

lemma finfo_float_min_value: "finfo_float_min = - (2 ^ 1024 - 2 ^ 971)"
  unfolding finfo_float_min_def pow_split by (simp only: left_diff_distrib mult_1)

lemma powr_971: "(2::real) powr of_int 971 = 2 ^ 971"
proof -
  have "(2::real) powr of_int 971 = 2 powr real (971::nat)" by simp
  also have "\<dots> = 2 ^ 971" by (rule powr_realpow) simp
  finally show ?thesis .
qed

lemma finfo_float_min_double: "finite_double finfo_float_min"
proof -
  have m: "real_of_int (- (2 ^ 53 - 1)) = - (2 ^ 53 - 1)" by (simp only: of_int_minus of_int_diff of_int_power of_int_numeral of_int_1)
  have "finfo_float_min = real_of_int (- (2 ^ 53 - 1)) * 2 powr of_int 971"
    unfolding m powr_971 finfo_float_min_def by (simp only: mult_minus_left)
  moreover have "\<bar>- (2 ^ 53 - 1) :: int\<bar> < 2 ^ 53" by simp
  moreover have "- 1074 \<le> (971::int)" "(971::int) \<le> 971" by simp_all
  ultimately show ?thesis unfolding finite_double_def by blast
qed

lemma finfo_float_min_least:
  assumes "finite_double x"
  shows "finfo_float_min \<le> x"
proof -
  from assms obtain m e :: int where m: "\<bar>m\<bar> < 2 ^ 53" and e: "e \<le> 971"
    and x: "x = of_int m * 2 powr of_int e" unfolding finite_double_def by blast
  define A :: real where "A = 2 powr of_int 971"
  define B :: real where "B = 2 ^ 53 - 1"
  have A: "A = 2 ^ 971" unfolding A_def by (rule powr_971)
  have Apos: "0 \<le> A" unfolding A_def by simp
  have p: "(2::real) powr of_int e \<le> A" unfolding A_def using e by (intro powr_mono) simp_all
  have Bpos: "0 \<le> B" unfolding B_def by simp
  have fm: "finfo_float_min = - (B * A)" unfolding finfo_float_min_def A B_def ..
  show ?thesis
  proof (cases "0 \<le> m")
    case True
    then have "0 \<le> x" by (simp add: x)
    moreover have "- (B * A) \<le> 0" using Apos Bpos by simp
    ultimately show ?thesis unfolding fm by simp
  next
    case False
    then have neg: "real_of_int m \<le> 0" by simp
    from m have "- (2 ^ 53 - 1) \<le> m" by simp
    then have "real_of_int (- (2 ^ 53 - 1)) \<le> real_of_int m" by (simp only: of_int_le_iff)
    moreover have "real_of_int (- (2 ^ 53 - 1)) = - B"
      unfolding B_def by (simp only: of_int_minus of_int_diff of_int_power of_int_numeral of_int_1)
    ultimately have lb: "- B \<le> real_of_int m" by simp
    have 1: "real_of_int m * A \<le> real_of_int m * 2 powr of_int e"
      using p neg by (rule mult_left_mono_neg)
    have 2: "- B * A \<le> real_of_int m * A"
      using lb Apos by (rule mult_right_mono)
    from 1 2 have "- B * A \<le> x" unfolding x by (rule order_trans [rotated])
    then show ?thesis unfolding fm by simp
  qed
qed

lemma minus_one_double: "finite_double (- 1)"
proof -
  have "(- 1 :: real) = real_of_int (- 1) * 2 powr of_int 0" by simp
  moreover have "\<bar>- 1 :: int\<bar> < 2 ^ 53" by simp
  moreover have "- 1074 \<le> (0::int)" "(0::int) \<le> 971" by simp_all
  ultimately show ?thesis unfolding finite_double_def by blast
qed

lemma loglikelihood_via_table:
  "fst (loglikelihood cls td w s) =
     (case fst (probs_from_model cls w s) of Inl e \<Rightarrow> Inl e | Inr pt \<Rightarrow> loglikelihood_of pt td)"
  by (cases "probs_from_model cls w s"; cases "fst (probs_from_model cls w s)")
     (simp_all add: loglikelihood_def bind_def lift_def)

section \<open>The constructors\<close>

text \<open>
  Claim C5, as the code has it. The constructor fixes \<open>_dim\<close> to the length of the first
  triple's vector. It succeeds exactly when every vector has that length and no
  \<open>(lhs, rhs)\<close> pair comes again with a different vector; then \<open>dim()\<close> returns the
  length of the first vector and changes nothing. Otherwise it fails, at the first triple
  in input order that violates a check (all triples before it are consistent), with what
  \<open>check_triple\<close> says of that triple: the dimension check if its vector has another
  length than the first, the check of the repeated pair otherwise. So it fails on the
  dimension check exactly when the first triple that violates a check has a vector of
  another length than the first; and whenever some vector has another length, it fails.
\<close>

theorem FromFile_init_dim:
  "((\<exists>m. FromFile_init inp = Inr m) \<longleftrightarrow> same_dims inp \<and> same_feats inp) \<and>
   (\<not> same_dims inp \<longrightarrow> (\<exists>e. FromFile_init inp = Inl e)) \<and>
   (\<forall>m. inp \<noteq> [] \<and> FromFile_init inp = Inr m \<longrightarrow>
        FromFile_dim m = (Inr (Some (length (snd (snd (hd inp))))), m)) \<and>
   (\<forall>e. FromFile_init inp = Inl e \<longleftrightarrow>
        (\<exists>i<length inp. same_dims (take i inp) \<and> same_feats (take i inp) \<and>
           check_triple (take i inp) (inp ! i) = Some e)) \<and>
   (FromFile_init inp = Inl (AssertionError Mismatching_dimensions) \<longleftrightarrow>
        (\<exists>i<length inp. same_dims (take i inp) \<and> same_feats (take i inp) \<and>
           length (snd (snd (inp ! i))) \<noteq> length (snd (snd (hd inp)))))"
proof -
  have a: "(\<exists>m. FromFile_init inp = Inr m) \<longleftrightarrow> same_dims inp \<and> same_feats inp"
    by (rule FromFile_init_succeeds_iff)
  have b: "\<not> same_dims inp \<longrightarrow> (\<exists>e. FromFile_init inp = Inl e)"
    using a by (cases "FromFile_init inp") auto
  have c: "FromFile_dim m = (Inr (Some (length (snd (snd (hd inp))))), m)"
    if "inp \<noteq> []" "FromFile_init inp = Inr m" for m
    using FromFile_init_inv [OF that(2)] that(1)
    by (cases inp) (simp_all add: init_inv_def FromFile_dim_def)
  have d: "FromFile_init inp = Inl e \<longleftrightarrow>
        (\<exists>i<length inp. same_dims (take i inp) \<and> same_feats (take i inp) \<and>
           check_triple (take i inp) (inp ! i) = Some e)" for e
    by (rule FromFile_init_fails_iff)
  have e: "(\<exists>i<length inp. same_dims (take i inp) \<and> same_feats (take i inp) \<and>
           check_triple (take i inp) (inp ! i) = Some (AssertionError Mismatching_dimensions)) \<longleftrightarrow>
        (\<exists>i<length inp. same_dims (take i inp) \<and> same_feats (take i inp) \<and>
           length (snd (snd (inp ! i))) \<noteq> length (snd (snd (hd inp))))"
  proof (intro iff_exI conj_cong refl)
    fix i assume i: "i < length inp"
    show "check_triple (take i inp) (inp ! i) = Some (AssertionError Mismatching_dimensions) \<longleftrightarrow>
          length (snd (snd (inp ! i))) \<noteq> length (snd (snd (hd inp)))"
    proof (cases i)
      case 0
      with i show ?thesis by (cases inp) (simp_all add: check_triple_dimensions)
    next
      case (Suc k)
      with i have "take i inp \<noteq> []" "hd (take i inp) = hd inp" by (cases inp; simp)+
      then show ?thesis by (simp add: check_triple_dimensions)
    qed
  qed
  from a b c d [of "AssertionError Mismatching_dimensions"] d e show ?thesis by blast
qed

text \<open>
  The theorem at three triples of dimension two, the third repeating the first, which
  the constructor accepts, and at two triples of lengths two and one, which it refuses on
  the dimension check.
\<close>

theorem FromFile_init_dim_witness:
  "FromFile_init [(''S'', [''A''], [1, 0]), (''S'', [''B''], [0, 1]), (''S'', [''A''], [1, 0])] =
     Inr \<lparr>priv_rules = [(''S'', [([''A''], [1, 0]), ([''B''], [0, 1])])], priv_dim = Some 2\<rparr> \<and>
   same_dims [(''S'', [''A''], [1, 0]), (''S'', [''B''], [0, 1]), (''S'', [''A''], [1, 0])] \<and>
   same_feats [(''S'', [''A''], [1, 0]), (''S'', [''B''], [0, 1]), (''S'', [''A''], [1, 0])] \<and>
   FromFile_dim \<lparr>priv_rules = [(''S'', [([''A''], [1, 0]), ([''B''], [0, 1])])], priv_dim = Some 2\<rparr> =
     (Inr (Some 2), \<lparr>priv_rules = [(''S'', [([''A''], [1, 0]), ([''B''], [0, 1])])], priv_dim = Some 2\<rparr>) \<and>
   \<not> same_dims [(''S'', [''A''], [1, 0]), (''S'', [''B''], [1])] \<and>
   FromFile_init [(''S'', [''A''], [1, 0]), (''S'', [''B''], [1])] =
     Inl (AssertionError Mismatching_dimensions) \<and>
   check_triple [(''S'', [''A''], [1, 0])] (''S'', [''B''], [1]) =
     Some (AssertionError Mismatching_dimensions)"
proof -
  let ?ok = "[(''S'', [''A''], [1, 0::real]), (''S'', [''B''], [0, 1]), (''S'', [''A''], [1, 0])]"
  let ?bad = "[(''S'', [''A''], [1, 0::real]), (''S'', [''B''], [1])]"
  note ok = FromFile_init_dim [of ?ok]
  note bad = FromFile_init_dim [of ?bad]
  from ok ex1_eval have s: "same_dims ?ok \<and> same_feats ?ok" by blast
  from ok ex1_eval have d: "FromFile_dim \<lparr>priv_rules = [(''S'', [([''A''], [1, 0]), ([''B''], [0, 1])])], priv_dim = Some 2\<rparr> =
     (Inr (Some 2), \<lparr>priv_rules = [(''S'', [([''A''], [1, 0]), ([''B''], [0, 1])])], priv_dim = Some 2\<rparr>)"
    by simp
  have n: "\<not> same_dims ?bad" by (simp add: same_dims_def)
  with bad obtain e where "FromFile_init ?bad = Inl e" by blast
  with ex4_eval have f: "FromFile_init ?bad = Inl (AssertionError Mismatching_dimensions)" by simp
  have c: "check_triple [(''S'', [''A''], [1, 0])] (''S'', [''B''], [1]) =
     Some (AssertionError Mismatching_dimensions)" by simp
  from ex1_eval s d n f c show ?thesis by blast
qed

text \<open>
  Claim C5 as stated fails: both vectors have length two, so no triple differs from
  \<open>dim\<close>, and yet the constructor does not succeed.
\<close>

theorem FromFile_init_dim_counterexample:
  "map (\<lambda>t. length (snd (snd t))) [(''S'', [''A''], [1, 0]), (''S'', [''A''], [1, 1])] = [2, 2] \<and>
   FromFile_init [(''S'', [''A''], [1, 0]), (''S'', [''A''], [1, 1])] =
     Inl (AssertionError (Mismatching_features ''S'' [''A'']))"
  by (simp add: FromFile_init_def FromFile_init_step_def defaultdict_getitem_def)

text \<open>
  Claim C6: the same pair with the vectors \<open>[1, 0]\<close> and \<open>[1, 1]\<close>. The constructor stops
  with the \<open>AssertionError\<close> of its \<open>assert\<close>, not with the \<open>FeatureMismatchError\<close> the
  source declares for this.
\<close>

theorem FromFile_init_feature_mismatch_eval:
  "FromFile_init [(''S'', [''A''], [1, 0]), (''S'', [''A''], [1, 1])] =
     Inl (AssertionError (Mismatching_features ''S'' [''A''])) \<and>
   FromFile_init [(''S'', [''A''], [1, 0]), (''S'', [''A''], [1, 1])] \<noteq> Inl FeatureMismatchError"
  by (simp add: FromFile_init_def FromFile_init_step_def defaultdict_getitem_def)

text \<open>
  Claim C8, as the code has it. In every state of an indicator model built from \<open>rl\<close>
  (whatever the caches hold), \<open>dim()\<close> is the length of the rule list, repeats counted,
  so it is the number of distinct pairs exactly when the list has no repeats.
  \<open>find_index\<close> gives every pair of the list the position of its first occurrence: a
  repeated pair gets the index of its first occurrence, and indices follow first-seen
  order. The call keeps the caches consistent.
\<close>

theorem Basic_index_assignment:
  assumes "Basic_inv rl s"
  shows "Basic_dim s = (Inr (Some (length rl)), s) \<and>
     (length rl = card (set rl) \<longleftrightarrow> distinct rl) \<and>
     (\<forall>l r. (l, r) \<in> set rl \<longrightarrow>
        (\<exists>i. fst (Basic_find_index l r s) = Inr i \<and> i < length rl \<and> rl ! i = (l, r) \<and>
             (\<forall>j<i. rl ! j \<noteq> (l, r)))) \<and>
     (\<forall>l r. Basic_inv rl (snd (Basic_find_index l r s)))"
proof -
  have a: "Basic_dim s = (Inr (Some (length rl)), s)"
    using assms by (simp add: Basic_dim_def Basic_inv_def)
  have b: "length rl = card (set rl) \<longleftrightarrow> distinct rl"
    by (metis card_distinct distinct_card)
  have c: "\<exists>i. fst (Basic_find_index l r s) = Inr i \<and> i < length rl \<and> rl ! i = (l, r) \<and>
             (\<forall>j<i. rl ! j \<noteq> (l, r))" if "(l, r) \<in> set rl" for l r
  proof -
    from that obtain i where i: "list_index rl (l, r) = Inr i" by (blast dest: list_index_mem)
    then have "fst (Basic_find_index l r s) = Inr i"
      by (simp add: Basic_find_index_inv(1) [OF assms])
    with i show ?thesis by (auto simp: list_index_Inr_iff)
  qed
  have d: "Basic_inv rl (snd (Basic_find_index l r s))" for l r
    by (rule Basic_find_index_inv(2) [OF assms])
  from a b c d show ?thesis by blast
qed

text \<open>The theorem at a list of three rules whose third repeats the first.\<close>

theorem Basic_index_assignment_witness:
  "Basic_inv [(''S'', [''A'']), (''S'', [''B'']), (''S'', [''A''])]
     (Basic_init [(''S'', [''A'']), (''S'', [''B'']), (''S'', [''A''])]) \<and>
   Basic_dim (Basic_init [(''S'', [''A'']), (''S'', [''B'']), (''S'', [''A''])]) =
     (Inr (Some 3), Basic_init [(''S'', [''A'']), (''S'', [''B'']), (''S'', [''A''])]) \<and>
   fst (Basic_find_index ''S'' [''A''] (Basic_init [(''S'', [''A'']), (''S'', [''B'']), (''S'', [''A''])])) = Inr 0 \<and>
   fst (Basic_find_index ''S'' [''B''] (Basic_init [(''S'', [''A'']), (''S'', [''B'']), (''S'', [''A''])])) = Inr 1"
proof -
  let ?rl = "[(''S'', [''A'']), (''S'', [''B'']), (''S'', [''A''])]"
  have inv: "Basic_inv ?rl (Basic_init ?rl)" by (rule Basic_inv_init)
  from Basic_index_assignment [OF inv]
  have d: "Basic_dim (Basic_init ?rl) = (Inr (Some (length ?rl)), Basic_init ?rl)" by (rule conjunct1)
  have f0: "fst (Basic_find_index ''S'' [''A''] (Basic_init ?rl)) = Inr 0"
    by (simp add: Basic_find_index_def Basic_init_def)
  have f1: "fst (Basic_find_index ''S'' [''B''] (Basic_init ?rl)) = Inr 1"
    by (simp add: Basic_find_index_def Basic_init_def)
  from inv d f0 f1 show ?thesis by simp
qed

text \<open>
  Claim C8 as stated fails: the list holds one distinct pair, twice, and \<open>dim()\<close> is 2.
\<close>

theorem Basic_dim_counterexample:
  "Basic_dim (Basic_init [(''S'', [''A'']), (''S'', [''A''])]) =
     (Inr (Some 2), Basic_init [(''S'', [''A'']), (''S'', [''A''])]) \<and>
   card (set [(''S'', [''A'']), (''S'', [''A''])]) = 1"
  by (simp add: Basic_dim_def Basic_init_def)

section \<open>The queries\<close>

text \<open>
  Claim C4. For an indicator model built from \<open>rl\<close>, in any state of its caches, a rule
  \<open>(l, r)\<close> of the list and a weight vector of length \<open>dim()\<close>: the overridden score
  (\<open>weights[find_index(l, r)]\<close>) and the base class's dot product of the weights with
  \<open>featvec(l, r)\<close> return the same number, \<open>featvec(l, r)\<close> being the one-hot vector of
  the rule's index.
\<close>

theorem Basic_score_eq_dot:
  assumes "Basic_inv rl s" and "(l, r) \<in> set rl" and "length w = length rl"
  shows "fst (score Basic_class w l r s) =
           fst (LogLinModel_featvec_dot (featvec Basic_class) l r w s) \<and>
         (\<exists>i. i < length rl \<and> rl ! i = (l, r) \<and>
              fst (featvec Basic_class l r s) = Inr (one_hot (length rl) i) \<and>
              np_dot w (one_hot (length rl) i) = Inr (w ! i) \<and>
              fst (score Basic_class w l r s) = Inr (w ! i))"
proof -
  from assms(2) obtain i where i: "list_index rl (l, r) = Inr i" by (blast dest: list_index_mem)
  then have il: "i < length rl" and ri: "rl ! i = (l, r)" by (simp_all add: list_index_Inr_iff)
  have sc: "fst (score Basic_class w l r s) = Inr (w ! i)"
    using Basic_featvec_dot_inv(1) [OF assms(1), of l r w] i il assms(3)
    by (simp add: score_def Basic_class_def np_getitem_def)
  have fv: "fst (featvec Basic_class l r s) = Inr (one_hot (length rl) i)"
    using Basic_featvec_inv(1) [OF assms(1), of l r] i by (simp add: Basic_class_def)
  have dot: "np_dot w (one_hot (length rl) i) = Inr (w ! i)"
    using il assms(3) np_dot_one_hot [of i w] by (simp add: np_dot_def one_hot_def)
  have "fst (LogLinModel_featvec_dot (featvec Basic_class) l r w s) = Inr (w ! i)"
    using fv dot
    by (cases "featvec Basic_class l r s") (simp add: LogLinModel_featvec_dot_def bind_def lift_def)
  with sc fv dot il ri show ?thesis by auto
qed

text \<open>The theorem at two rules and the weights \<open>[2, 5]\<close>.\<close>

theorem Basic_score_eq_dot_witness:
  "fst (score Basic_class [2, 5] ''S'' [''B''] (Basic_init [(''S'', [''A'']), (''S'', [''B''])])) = Inr 5 \<and>
   fst (LogLinModel_featvec_dot (featvec Basic_class) ''S'' [''B''] [2, 5]
          (Basic_init [(''S'', [''A'']), (''S'', [''B''])])) = Inr 5"
proof -
  let ?rl = "[(''S'', [''A'']), (''S'', [''B''])]"
  have inv: "Basic_inv ?rl (Basic_init ?rl)" by (rule Basic_inv_init)
  have mem: "(''S'', [''B'']) \<in> set ?rl" by simp
  have len: "length [2, 5 :: real] = length ?rl" by simp
  from Basic_score_eq_dot [OF inv mem len]
  have eq: "fst (score Basic_class [2, 5] ''S'' [''B''] (Basic_init ?rl)) =
            fst (LogLinModel_featvec_dot (featvec Basic_class) ''S'' [''B''] [2, 5] (Basic_init ?rl))"
    by (rule conjunct1)
  have "fst (score Basic_class [2, 5] ''S'' [''B''] (Basic_init ?rl)) = Inr 5"
    by (simp add: score_def Basic_class_def Basic_featvec_dot_def bind_def
        Basic_find_index_def Basic_init_def lift_def np_getitem_def)
  with eq show ?thesis by simp
qed

text \<open>
  Claim C7, as the code has it. \<open>rhss(x)\<close> raises nothing in either model. For a dense
  model built from \<open>inp\<close> and for an indicator model built from \<open>rl\<close> it returns the
  right-hand sides recorded for \<open>x\<close>; for an \<open>x\<close> that is not in \<open>lhss()\<close> this is the
  empty collection.
\<close>

theorem rhss_result:
  "(\<forall>m. FromFile_init inp = Inr m \<longrightarrow>
      (\<exists>xs ys. FromFile_lhss m = (Inr xs, m) \<and> set xs = {l. \<exists>r f. (l, r, f) \<in> set inp} \<and>
         fst (FromFile_rhss x m) = Inr ys \<and> set ys = {r. \<exists>f. (x, r, f) \<in> set inp} \<and>
         (x \<notin> set xs \<longrightarrow> ys = []))) \<and>
   (\<forall>s. Basic_inv rl s \<longrightarrow>
      (\<exists>xs ys. Basic_lhss s = (Inr xs, s) \<and> set xs = {l. \<exists>r. (l, r) \<in> set rl} \<and>
         Basic_rhss x s = (Inr ys, s) \<and> set ys = {r. (x, r) \<in> set rl} \<and>
         (x \<notin> set xs \<longrightarrow> ys = [])))"
proof (intro conjI allI impI)
  fix m assume "FromFile_init inp = Inr m"
  then have inv: "init_inv inp m" by (rule FromFile_init_inv)
  from FromFile_rhss_result [OF inv, of x] obtain ys where
    ys: "fst (FromFile_rhss x m) = Inr ys" "set ys = {r. \<exists>f. (x, r, f) \<in> set inp}" by blast
  have xs: "FromFile_lhss m = (Inr (map fst (priv_rules m)), m)" by (simp add: FromFile_lhss_def)
  note l = FromFile_lhss_result [OF inv]
  have "x \<notin> set (map fst (priv_rules m)) \<longrightarrow> ys = []"
    using ys(2) l by auto
  with ys xs l show "\<exists>xs ys. FromFile_lhss m = (Inr xs, m) \<and> set xs = {l. \<exists>r f. (l, r, f) \<in> set inp} \<and>
         fst (FromFile_rhss x m) = Inr ys \<and> set ys = {r. \<exists>f. (x, r, f) \<in> set inp} \<and>
         (x \<notin> set xs \<longrightarrow> ys = [])" by blast
next
  fix s assume inv: "Basic_inv rl s"
  then have rl: "priv_rulelist s = rl" by (simp add: Basic_inv_def)
  let ?xs = "list_of_set (map fst rl)"
  let ?ys = "list_of_set (map snd (filter (\<lambda>(l, r). x = l) rl))"
  have a: "Basic_lhss s = (Inr ?xs, s)" using rl by (simp add: Basic_lhss_def)
  have b: "set ?xs = {l. \<exists>r. (l, r) \<in> set rl}" by (force simp: list_of_set_def)
  have c: "Basic_rhss x s = (Inr ?ys, s)" using rl by (simp add: Basic_rhss_def)
  have d: "set ?ys = {r. (x, r) \<in> set rl}" by (force simp: list_of_set_def)
  have e: "x \<notin> set ?xs \<longrightarrow> ?ys = []" using b d by (metis (mono_tags, lifting) empty_Collect_eq mem_Collect_eq set_empty)
  from a b c d e show "\<exists>xs ys. Basic_lhss s = (Inr xs, s) \<and> set xs = {l. \<exists>r. (l, r) \<in> set rl} \<and>
         Basic_rhss x s = (Inr ys, s) \<and> set ys = {r. (x, r) \<in> set rl} \<and>
         (x \<notin> set xs \<longrightarrow> ys = [])" by blast
qed

text \<open>The theorem at the left-hand side \<open>S\<close> with the right-hand sides \<open>A\<close> and \<open>B\<close>.\<close>

theorem rhss_result_witness:
  "FromFile_init [(''S'', [''A''], [1, 0]), (''S'', [''B''], [0, 1]), (''S'', [''A''], [1, 0])] =
     Inr \<lparr>priv_rules = [(''S'', [([''A''], [1, 0]), ([''B''], [0, 1])])], priv_dim = Some 2\<rparr> \<and>
   fst (FromFile_rhss ''S''
     \<lparr>priv_rules = [(''S'', [([''A''], [1, 0]), ([''B''], [0, 1])])], priv_dim = Some 2\<rparr>) =
     Inr [[''A''], [''B'']] \<and>
   Basic_inv [(''S'', [''A'']), (''S'', [''B''])] (Basic_init [(''S'', [''A'']), (''S'', [''B''])]) \<and>
   set (projr (fst (Basic_rhss ''S'' (Basic_init [(''S'', [''A'']), (''S'', [''B''])])))) =
     {[''A''], [''B'']}"
proof -
  let ?rl = "[(''S'', [''A'']), (''S'', [''B''])]"
  have inv: "Basic_inv ?rl (Basic_init ?rl)" by (rule Basic_inv_init)
  from rhss_result [of "[(''S'', [''A''], [1, 0]), (''S'', [''B''], [0, 1]), (''S'', [''A''], [1, 0])]" "''S''" ?rl]
    inv
  obtain ys where "Basic_rhss ''S'' (Basic_init ?rl) = (Inr ys, Basic_init ?rl)"
    "set ys = {r. (''S'', r) \<in> set ?rl}" by blast
  then have "set (projr (fst (Basic_rhss ''S'' (Basic_init ?rl)))) = {[''A''], [''B'']}"
    by auto
  moreover have "fst (FromFile_rhss ''S''
     \<lparr>priv_rules = [(''S'', [([''A''], [1, 0]), ([''B''], [0, 1])])], priv_dim = Some 2\<rparr>) =
     Inr [[''A''], [''B'']]"
    by (simp add: FromFile_rhss_def defaultdict_getitem_def)
  ultimately show ?thesis using inv ex1_eval by simp
qed

text \<open>
  Claim C7 as stated fails: \<open>T\<close> was never observed, and \<open>rhss('T')\<close> returns an empty
  collection in both models.
\<close>

theorem rhss_unknown_counterexample:
  "FromFile_init [(''S'', [''A''], [1])] =
     Inr \<lparr>priv_rules = [(''S'', [([''A''], [1])])], priv_dim = Some 1\<rparr> \<and>
   fst (FromFile_rhss ''T'' \<lparr>priv_rules = [(''S'', [([''A''], [1])])], priv_dim = Some 1\<rparr>) = Inr [] \<and>
   fst (Basic_rhss ''T'' (Basic_init [(''S'', [''A''])])) = Inr []"
  by (simp add: ex2_eval FromFile_rhss_def defaultdict_getitem_def Basic_rhss_def Basic_init_def
      list_of_set_def)

text \<open>
  Claim C10: a dense model with the one left-hand side \<open>S\<close>. \<open>rhss('T')\<close> and
  \<open>featvec('T', ('B',))\<close> insert \<open>T\<close> with an empty dict into \<open>_rules\<close>, so \<open>lhss()\<close>
  returns \<open>S\<close> and \<open>T\<close> afterwards, and \<open>probs_from_model\<close>, which worked before, raises
  \<open>ValueError\<close> (the maximum of an empty array).
\<close>

theorem FromFile_rhss_inserts_eval:
  "FromFile_init [(''S'', [''A''], [1])] =
     Inr \<lparr>priv_rules = [(''S'', [([''A''], [1])])], priv_dim = Some 1\<rparr> \<and>
   fst (FromFile_lhss \<lparr>priv_rules = [(''S'', [([''A''], [1])])], priv_dim = Some 1\<rparr>) = Inr [''S''] \<and>
   FromFile_rhss ''T'' \<lparr>priv_rules = [(''S'', [([''A''], [1])])], priv_dim = Some 1\<rparr> =
     (Inr [], \<lparr>priv_rules = [(''S'', [([''A''], [1])]), (''T'', [])], priv_dim = Some 1\<rparr>) \<and>
   fst (FromFile_lhss \<lparr>priv_rules = [(''S'', [([''A''], [1])]), (''T'', [])], priv_dim = Some 1\<rparr>) =
     Inr [''S'', ''T''] \<and>
   FromFile_featvec ''T'' [''B''] \<lparr>priv_rules = [(''S'', [([''A''], [1])])], priv_dim = Some 1\<rparr> =
     (Inl KeyError, \<lparr>priv_rules = [(''S'', [([''A''], [1])]), (''T'', [])], priv_dim = Some 1\<rparr>) \<and>
   fst (probs_from_model FromFile_class [0]
          \<lparr>priv_rules = [(''S'', [([''A''], [1])])], priv_dim = Some 1\<rparr>) =
     Inr [(''S'', [([''A''], 1)])] \<and>
   fst (probs_from_model FromFile_class [0]
          \<lparr>priv_rules = [(''S'', [([''A''], [1])]), (''T'', [])], priv_dim = Some 1\<rparr>) =
     Inl ValueError"
  by (simp add: ex2_eval FromFile_lhss_def FromFile_rhss_def FromFile_featvec_def
      defaultdict_getitem_def dict_getitem_def probs_from_model_def probs_row_def
      FromFile_class_def bind_def ret_def lift_def score_def LogLinModel_featvec_dot_def
      np_dot_def np_max_def)

section \<open>Lemmas: an example model\<close>

lemma ex3_eval:
  "FromFile_init [(''S'', [''A''], [1]), (''S'', [''B''], [0])] =
     Inr \<lparr>priv_rules = [(''S'', [([''A''], [1]), ([''B''], [0])])], priv_dim = Some 1\<rparr>"
  by (simp add: FromFile_init_def FromFile_init_step_def defaultdict_getitem_def)

section \<open>Log-likelihood and gradient\<close>

lemma loglikelihood_returns_both:
  "(td_in_table pt td \<longrightarrow>
      loglikelihood_of pt td =
        Inr (if zero_referenced pt td then finfo_float_min else loglik_sum pt td)) \<and>
   (\<forall>m. FromFile_init inp = Inr m \<and> priv_dim m = Some (length w) \<and>
        td_in_model (FromFile_lhss_of m) (FromFile_rhss_of m) td \<longrightarrow>
      (\<exists>pt' v. probs_from_model FromFile_class w m = (Inr pt', m) \<and> td_in_table pt' td \<and>
         loglikelihood FromFile_class td w m = (loglikelihood_of pt' td, m) \<and>
         loglikelihood_of pt' td = Inr v)) \<and>
   (\<forall>s. Basic_inv rl s \<and> length w = length rl \<and>
        td_in_model (Basic_lhss_of rl) (Basic_rhss_of rl) td \<longrightarrow>
      (\<exists>pt' v. fst (probs_from_model Basic_class w s) = Inr pt' \<and> td_in_table pt' td \<and>
         fst (loglikelihood Basic_class td w s) = loglikelihood_of pt' td \<and>
         loglikelihood_of pt' td = Inr v))"
proof (intro conjI allI impI)
  assume "td_in_table pt td"
  then show "loglikelihood_of pt td =
        Inr (if zero_referenced pt td then finfo_float_min else loglik_sum pt td)"
    by (rule loglikelihood_of_result)
next
  fix m assume a: "FromFile_init inp = Inr m \<and> priv_dim m = Some (length w) \<and>
        td_in_model (FromFile_lhss_of m) (FromFile_rhss_of m) td"
  then have inv: "init_inv inp m" by (simp add: FromFile_init_inv)
  from a have dm: "priv_dim m = Some (length w)" by simp
  note im = FromFile_implements [OF inv dm]
  let ?pt = "prob_table w (FromFile_lhss_of m) (FromFile_rhss_of m) (FromFile_featvec_of m)"
  have t: "td_in_table ?pt td" using a by (simp add: td_in_model_table)
  have "returns (\<lambda>s. s = m) (probs_from_model FromFile_class w) ?pt"
    by (rule probs_from_model_returns [OF im(1) refl im(2)])
  then have r: "probs_from_model FromFile_class w m = (Inr ?pt, m)"
    by (simp add: returns_def prod_eq_iff)
  then have l: "loglikelihood FromFile_class td w m = (loglikelihood_of ?pt td, m)"
    by (simp add: loglikelihood_def bind_def lift_def)
  from loglikelihood_of_result [OF t] r t l
  show "\<exists>pt' v. probs_from_model FromFile_class w m = (Inr pt', m) \<and> td_in_table pt' td \<and>
         loglikelihood FromFile_class td w m = (loglikelihood_of pt' td, m) \<and>
         loglikelihood_of pt' td = Inr v" by blast
next
  fix s assume a: "Basic_inv rl s \<and> length w = length rl \<and>
        td_in_model (Basic_lhss_of rl) (Basic_rhss_of rl) td"
  let ?pt = "prob_table w (Basic_lhss_of rl) (Basic_rhss_of rl) (Basic_featvec_of rl)"
  have t: "td_in_table ?pt td" using a by (simp add: td_in_model_table)
  have "returns (Basic_inv rl) (probs_from_model Basic_class w) ?pt"
    using a by (intro probs_from_model_returns [OF Basic_implements(1) _ Basic_implements(2)]) simp
  with a have r: "fst (probs_from_model Basic_class w s) = Inr ?pt" by (simp add: returns_def)
  then have l: "fst (loglikelihood Basic_class td w s) = loglikelihood_of ?pt td"
    by (cases "probs_from_model Basic_class w s") (simp add: loglikelihood_def bind_def lift_def)
  from loglikelihood_of_result [OF t] r t l
  show "\<exists>pt' v. fst (probs_from_model Basic_class w s) = Inr pt' \<and> td_in_table pt' td \<and>
         fst (loglikelihood Basic_class td w s) = loglikelihood_of pt' td \<and>
         loglikelihood_of pt' td = Inr v" by blast
qed

text \<open>
  Claim C2. For any probability table that has an entry for every \<open>(lhs, rhs)\<close> of the
  frequency table: if one of these entries is exactly 0, the log-likelihood is
  \<open>np.finfo('float').min\<close> and no exception leaves the function; otherwise it is the
  sum over the entries \<open>(lhs, rhs, freq)\<close> of \<open>freq * log(prob(lhs, rhs))\<close>. The floor is
  \<open>-(2^1024 - 2^971)\<close>: it is a finite double, and no finite double is below it. The
  table is the one \<open>probs_from_model\<close> returns for the weights: \<open>loglikelihood\<close> is
  \<open>loglikelihood_of\<close> of that table, in both models and in every state. And
  \<open>loglikelihood\<close> is total over the weight vectors of length \<open>dim()\<close>: for a dense
  model as constructed, or an indicator model in any state of its caches, and a
  frequency table over the model's rules, the table has every entry the frequency table
  refers to, and a number is returned.
\<close>

theorem loglikelihood_total:
  "(td_in_table pt td \<longrightarrow>
      loglikelihood_of pt td =
        Inr (if zero_referenced pt td then finfo_float_min else loglik_sum pt td)) \<and>
   finfo_float_min = - (2 ^ 1024 - 2 ^ 971) \<and>
   finite_double finfo_float_min \<and>
   (\<forall>x. finite_double x \<longrightarrow> finfo_float_min \<le> x) \<and>
   (\<forall>m. fst (loglikelihood FromFile_class td w m) =
      (case fst (probs_from_model FromFile_class w m) of
         Inl e \<Rightarrow> Inl e | Inr pt' \<Rightarrow> loglikelihood_of pt' td)) \<and>
   (\<forall>s. fst (loglikelihood Basic_class td w s) =
      (case fst (probs_from_model Basic_class w s) of
         Inl e \<Rightarrow> Inl e | Inr pt' \<Rightarrow> loglikelihood_of pt' td)) \<and>
   (\<forall>m. FromFile_init inp = Inr m \<and> priv_dim m = Some (length w) \<and>
        td_in_model (FromFile_lhss_of m) (FromFile_rhss_of m) td \<longrightarrow>
      (\<exists>pt' v. probs_from_model FromFile_class w m = (Inr pt', m) \<and> td_in_table pt' td \<and>
         loglikelihood FromFile_class td w m = (loglikelihood_of pt' td, m) \<and>
         loglikelihood_of pt' td = Inr v)) \<and>
   (\<forall>s. Basic_inv rl s \<and> length w = length rl \<and>
        td_in_model (Basic_lhss_of rl) (Basic_rhss_of rl) td \<longrightarrow>
      (\<exists>pt' v. fst (probs_from_model Basic_class w s) = Inr pt' \<and> td_in_table pt' td \<and>
         fst (loglikelihood Basic_class td w s) = loglikelihood_of pt' td \<and>
         loglikelihood_of pt' td = Inr v))"
proof -
  note old = loglikelihood_returns_both [of pt td inp w rl]
  from old have a: "td_in_table pt td \<longrightarrow>
      loglikelihood_of pt td =
        Inr (if zero_referenced pt td then finfo_float_min else loglik_sum pt td)"
    by (rule conjunct1)
  from old have b: "\<forall>m. FromFile_init inp = Inr m \<and> priv_dim m = Some (length w) \<and>
        td_in_model (FromFile_lhss_of m) (FromFile_rhss_of m) td \<longrightarrow>
      (\<exists>pt' v. probs_from_model FromFile_class w m = (Inr pt', m) \<and> td_in_table pt' td \<and>
         loglikelihood FromFile_class td w m = (loglikelihood_of pt' td, m) \<and>
         loglikelihood_of pt' td = Inr v)"
    by (rule conjunct1 [OF conjunct2])
  from old have c: "\<forall>s. Basic_inv rl s \<and> length w = length rl \<and>
        td_in_model (Basic_lhss_of rl) (Basic_rhss_of rl) td \<longrightarrow>
      (\<exists>pt' v. fst (probs_from_model Basic_class w s) = Inr pt' \<and> td_in_table pt' td \<and>
         fst (loglikelihood Basic_class td w s) = loglikelihood_of pt' td \<and>
         loglikelihood_of pt' td = Inr v)"
    by (rule conjunct2 [OF conjunct2])
  have d: "\<forall>x. finite_double x \<longrightarrow> finfo_float_min \<le> x"
    by (simp add: finfo_float_min_least)
  have e: "\<forall>m. fst (loglikelihood FromFile_class td w m) =
      (case fst (probs_from_model FromFile_class w m) of
         Inl e \<Rightarrow> Inl e | Inr pt' \<Rightarrow> loglikelihood_of pt' td)"
    by (simp add: loglikelihood_via_table)
  have f: "\<forall>s. fst (loglikelihood Basic_class td w s) =
      (case fst (probs_from_model Basic_class w s) of
         Inl e \<Rightarrow> Inl e | Inr pt' \<Rightarrow> loglikelihood_of pt' td)"
    by (simp add: loglikelihood_via_table)
  show ?thesis
    by (intro conjI a finfo_float_min_value finfo_float_min_double d e f b c)
qed

text \<open>
  The theorem at a table that gives the rule \<open>S \<rightarrow> B\<close> probability 0 (the floor is
  returned), at the double \<open>-1\<close>, which is above the floor, and at a dense and an
  indicator model.
\<close>

theorem loglikelihood_total_witness:
  "td_in_table [(''S'', [([''A''], 1), ([''B''], 0)])] [(''S'', [([''A''], 3), ([''B''], 1)])] \<and>
   zero_referenced [(''S'', [([''A''], 1), ([''B''], 0)])] [(''S'', [([''A''], 3), ([''B''], 1)])] \<and>
   loglikelihood_of [(''S'', [([''A''], 1), ([''B''], 0)])] [(''S'', [([''A''], 3), ([''B''], 1)])] =
     Inr finfo_float_min \<and>
   finite_double (- 1) \<and> finfo_float_min \<le> - 1 \<and>
   FromFile_init [(''S'', [''A''], [1]), (''S'', [''B''], [0])] =
     Inr \<lparr>priv_rules = [(''S'', [([''A''], [1]), ([''B''], [0])])], priv_dim = Some 1\<rparr> \<and>
   td_in_model
     (FromFile_lhss_of \<lparr>priv_rules = [(''S'', [([''A''], [1]), ([''B''], [0])])], priv_dim = Some 1\<rparr>)
     (FromFile_rhss_of \<lparr>priv_rules = [(''S'', [([''A''], [1]), ([''B''], [0])])], priv_dim = Some 1\<rparr>)
     [(''S'', [([''A''], 3), ([''B''], 1)])] \<and>
   (\<exists>v. loglikelihood FromFile_class [(''S'', [([''A''], 3), ([''B''], 1)])] [0]
           \<lparr>priv_rules = [(''S'', [([''A''], [1]), ([''B''], [0])])], priv_dim = Some 1\<rparr> =
         (Inr v, \<lparr>priv_rules = [(''S'', [([''A''], [1]), ([''B''], [0])])], priv_dim = Some 1\<rparr>)) \<and>
   Basic_inv [(''S'', [''A''])] (Basic_init [(''S'', [''A''])]) \<and>
   td_in_model (Basic_lhss_of [(''S'', [''A''])]) (Basic_rhss_of [(''S'', [''A''])])
     [(''S'', [([''A''], 3)])] \<and>
   (\<exists>v. fst (loglikelihood Basic_class [(''S'', [([''A''], 3)])] [7] (Basic_init [(''S'', [''A''])])) =
         Inr v)"
proof -
  let ?pt = "[(''S'', [([''A''], 1::real), ([''B''], 0)])]"
  let ?td = "[(''S'', [([''A''], 3::int), ([''B''], 1)])]"
  let ?inp = "[(''S'', [''A''], [1::real]), (''S'', [''B''], [0])]"
  let ?m = "\<lparr>priv_rules = [(''S'', [([''A''], [1::real]), ([''B''], [0])])], priv_dim = Some 1\<rparr>"
  let ?rl = "[(''S'', [''A''])]"
  let ?td2 = "[(''S'', [([''A''], 3::int)])]"
  have t: "td_in_table ?pt ?td" by (simp add: td_in_table_def table_lookup_def)
  have z: "zero_referenced ?pt ?td" by (simp add: zero_referenced_def table_lookup_def)
  have d: "priv_dim ?m = Some (length [0::real])" by simp
  have tm: "td_in_model (FromFile_lhss_of ?m) (FromFile_rhss_of ?m) ?td"
    by (auto simp: td_in_model_def FromFile_lhss_of_def FromFile_rhss_of_def image_iff)
  have inv: "Basic_inv ?rl (Basic_init ?rl)" by (rule Basic_inv_init)
  have len: "length [7::real] = length ?rl" by simp
  have tb: "td_in_model (Basic_lhss_of ?rl) (Basic_rhss_of ?rl) ?td2"
    by (simp add: td_in_model_def Basic_lhss_of_def Basic_rhss_of_def list_of_set_def)
  note th1 = loglikelihood_total [of ?pt ?td "[0]" ?inp ?rl]
  note th2 = loglikelihood_total [of ?pt ?td2 "[7]" ?inp ?rl]
  from th1 have a0: "td_in_table ?pt ?td \<longrightarrow> loglikelihood_of ?pt ?td =
        Inr (if zero_referenced ?pt ?td then finfo_float_min else loglik_sum ?pt ?td)"
    by (rule conjunct1)
  with t z have a: "loglikelihood_of ?pt ?td = Inr finfo_float_min" by simp
  from th1 have "\<forall>x. finite_double x \<longrightarrow> finfo_float_min \<le> x" by blast
  with minus_one_double have le: "finfo_float_min \<le> - 1" by blast
  from th1 have "\<forall>m. FromFile_init ?inp = Inr m \<and> priv_dim m = Some (length [0::real]) \<and>
        td_in_model (FromFile_lhss_of m) (FromFile_rhss_of m) ?td \<longrightarrow>
      (\<exists>pt' v. probs_from_model FromFile_class [0] m = (Inr pt', m) \<and> td_in_table pt' ?td \<and>
         loglikelihood FromFile_class ?td [0] m = (loglikelihood_of pt' ?td, m) \<and>
         loglikelihood_of pt' ?td = Inr v)" by blast
  with ex3_eval d tm
  have b: "\<exists>v. loglikelihood FromFile_class ?td [0] ?m = (Inr v, ?m)" by fastforce
  from th2 have "\<forall>s. Basic_inv ?rl s \<and> length [7::real] = length ?rl \<and>
        td_in_model (Basic_lhss_of ?rl) (Basic_rhss_of ?rl) ?td2 \<longrightarrow>
      (\<exists>pt' v. fst (probs_from_model Basic_class [7] s) = Inr pt' \<and> td_in_table pt' ?td2 \<and>
         fst (loglikelihood Basic_class ?td2 [7] s) = loglikelihood_of pt' ?td2 \<and>
         loglikelihood_of pt' ?td2 = Inr v)" by blast
  with inv len tb
  have c: "\<exists>v. fst (loglikelihood Basic_class ?td2 [7] (Basic_init ?rl)) = Inr v" by fastforce
  from t z a minus_one_double le ex3_eval tm b inv tb c show ?thesis by blast
qed

text \<open>
  Claim C3. Under the same conditions, the gradient \<open>train\<close> hands to the minimizer,
  \<open>penaltygrad(lambda, weights) - loglhdgrad(td, weights)\<close>, has in each component \<open>k\<close>
  the value \<open>lambda * weights[k]\<close> minus the sum over the entries \<open>(lhs, rhs, freq)\<close> of
  the frequency table of \<open>freq * (featvec(lhs, rhs)[k] - E[lhs][k])\<close>, where \<open>E[lhs][k]\<close>
  is the sum over the candidates \<open>rhs'\<close> of \<open>lhs\<close> of \<open>P(rhs' | lhs) * featvec(lhs, rhs')[k]\<close>
  and \<open>P\<close> is read from the table \<open>probs_from_model\<close> returns for these weights
  (\<open>gradient_spec\<close>, \<open>grad_loglikelihood_spec\<close>, \<open>expectation_spec\<close>, \<open>prob_of\<close>).
\<close>

theorem gradient_formula:
  "(\<forall>m. FromFile_init inp = Inr m \<and> priv_dim m = Some (length w) \<and>
        td_in_model (FromFile_lhss_of m) (FromFile_rhss_of m) td \<longrightarrow>
      (\<exists>g. gradient FromFile_class td lam w m = (Inr g, m) \<and> length g = length w \<and>
         (\<forall>k<length w. g ! k =
            gradient_spec lam w (FromFile_lhss_of m) (FromFile_rhss_of m) (FromFile_featvec_of m)
              td k) \<and>
         probs_from_model FromFile_class w m =
           (Inr (prob_table w (FromFile_lhss_of m) (FromFile_rhss_of m) (FromFile_featvec_of m)),
            m))) \<and>
   (\<forall>s. Basic_inv rl s \<and> length w = length rl \<and>
        td_in_model (Basic_lhss_of rl) (Basic_rhss_of rl) td \<longrightarrow>
      (\<exists>g. fst (gradient Basic_class td lam w s) = Inr g \<and> length g = length w \<and>
         (\<forall>k<length w. g ! k =
            gradient_spec lam w (Basic_lhss_of rl) (Basic_rhss_of rl) (Basic_featvec_of rl) td k) \<and>
         fst (probs_from_model Basic_class w s) =
           Inr (prob_table w (Basic_lhss_of rl) (Basic_rhss_of rl) (Basic_featvec_of rl))))"
proof (intro conjI allI impI)
  fix m assume a: "FromFile_init inp = Inr m \<and> priv_dim m = Some (length w) \<and>
        td_in_model (FromFile_lhss_of m) (FromFile_rhss_of m) td"
  then have inv: "init_inv inp m" by (simp add: FromFile_init_inv)
  from a have dm: "priv_dim m = Some (length w)"
    and tm: "td_in_model (FromFile_lhss_of m) (FromFile_rhss_of m) td" by simp_all
  note im = FromFile_implements [OF inv dm]
  let ?pt = "prob_table w (FromFile_lhss_of m) (FromFile_rhss_of m) (FromFile_featvec_of m)"
  have "returns (\<lambda>s. s = m) (probs_from_model FromFile_class w) ?pt"
    by (rule probs_from_model_returns [OF im(1) refl im(2)])
  then have r: "probs_from_model FromFile_class w m = (Inr ?pt, m)"
    by (simp add: returns_def prod_eq_iff)
  from gradient_returns [OF im(1) refl im(2) tm, of lam] obtain g where
    g: "returns (\<lambda>s. s = m) (gradient FromFile_class td lam w) g" "length g = length w"
      "\<forall>k<length w. g ! k =
         gradient_spec lam w (FromFile_lhss_of m) (FromFile_rhss_of m) (FromFile_featvec_of m) td k"
    by blast
  from g(1) have "gradient FromFile_class td lam w m = (Inr g, m)"
    by (simp add: returns_def prod_eq_iff)
  with g(2,3) r show "\<exists>g. gradient FromFile_class td lam w m = (Inr g, m) \<and> length g = length w \<and>
         (\<forall>k<length w. g ! k =
            gradient_spec lam w (FromFile_lhss_of m) (FromFile_rhss_of m) (FromFile_featvec_of m)
              td k) \<and>
         probs_from_model FromFile_class w m = (Inr ?pt, m)" by blast
next
  fix s assume a: "Basic_inv rl s \<and> length w = length rl \<and>
        td_in_model (Basic_lhss_of rl) (Basic_rhss_of rl) td"
  then have len: "length w = length rl"
    and tm: "td_in_model (Basic_lhss_of rl) (Basic_rhss_of rl) td" and inv: "Basic_inv rl s"
    by simp_all
  let ?pt = "prob_table w (Basic_lhss_of rl) (Basic_rhss_of rl) (Basic_featvec_of rl)"
  have "returns (Basic_inv rl) (probs_from_model Basic_class w) ?pt"
    by (rule probs_from_model_returns [OF Basic_implements(1) len Basic_implements(2)])
  with inv have r: "fst (probs_from_model Basic_class w s) = Inr ?pt" by (simp add: returns_def)
  from gradient_returns [OF Basic_implements(1) len Basic_implements(2) tm, of lam] obtain g where
    g: "returns (Basic_inv rl) (gradient Basic_class td lam w) g" "length g = length rl"
      "\<forall>k<length rl. g ! k =
         gradient_spec lam w (Basic_lhss_of rl) (Basic_rhss_of rl) (Basic_featvec_of rl) td k"
    by blast
  from g(1) inv have "fst (gradient Basic_class td lam w s) = Inr g" by (simp add: returns_def)
  with g(2,3) r len show "\<exists>g. fst (gradient Basic_class td lam w s) = Inr g \<and> length g = length w \<and>
         (\<forall>k<length w. g ! k =
            gradient_spec lam w (Basic_lhss_of rl) (Basic_rhss_of rl) (Basic_featvec_of rl) td k) \<and>
         fst (probs_from_model Basic_class w s) = Inr ?pt" by simp
qed

text \<open>
  The theorem at three observations of \<open>S \<rightarrow> A\<close> (feature 1) and one of \<open>S \<rightarrow> B\<close>
  (feature 0) with the weight 0: the gradient is \<open>-1\<close>; and at an indicator model with
  one rule, weight 7 and \<open>lambda = 2\<close>: the gradient is 14.
\<close>

theorem gradient_formula_witness:
  "FromFile_init [(''S'', [''A''], [1]), (''S'', [''B''], [0])] =
     Inr \<lparr>priv_rules = [(''S'', [([''A''], [1]), ([''B''], [0])])], priv_dim = Some 1\<rparr> \<and>
   td_in_model
     (FromFile_lhss_of \<lparr>priv_rules = [(''S'', [([''A''], [1]), ([''B''], [0])])], priv_dim = Some 1\<rparr>)
     (FromFile_rhss_of \<lparr>priv_rules = [(''S'', [([''A''], [1]), ([''B''], [0])])], priv_dim = Some 1\<rparr>)
     [(''S'', [([''A''], 3), ([''B''], 1)])] \<and>
   gradient FromFile_class [(''S'', [([''A''], 3), ([''B''], 1)])] 2 [0]
       \<lparr>priv_rules = [(''S'', [([''A''], [1]), ([''B''], [0])])], priv_dim = Some 1\<rparr> =
     (Inr [- 1], \<lparr>priv_rules = [(''S'', [([''A''], [1]), ([''B''], [0])])], priv_dim = Some 1\<rparr>) \<and>
   Basic_inv [(''S'', [''A''])] (Basic_init [(''S'', [''A''])]) \<and>
   td_in_model (Basic_lhss_of [(''S'', [''A''])]) (Basic_rhss_of [(''S'', [''A''])])
     [(''S'', [([''A''], 3)])] \<and>
   fst (gradient Basic_class [(''S'', [([''A''], 3)])] 2 [7] (Basic_init [(''S'', [''A''])])) =
     Inr [14]"
proof -
  let ?td = "[(''S'', [([''A''], 3::int), ([''B''], 1)])]"
  let ?inp = "[(''S'', [''A''], [1::real]), (''S'', [''B''], [0])]"
  let ?m = "\<lparr>priv_rules = [(''S'', [([''A''], [1::real]), ([''B''], [0])])], priv_dim = Some 1\<rparr>"
  let ?rl = "[(''S'', [''A''])]"
  let ?td2 = "[(''S'', [([''A''], 3::int)])]"
  have d: "priv_dim ?m = Some (length [0::real])" by simp
  have tm: "td_in_model (FromFile_lhss_of ?m) (FromFile_rhss_of ?m) ?td"
    by (auto simp: td_in_model_def FromFile_lhss_of_def FromFile_rhss_of_def image_iff)
  have inv: "Basic_inv ?rl (Basic_init ?rl)" by (rule Basic_inv_init)
  have len: "length [7::real] = length ?rl" by simp
  have tb: "td_in_model (Basic_lhss_of ?rl) (Basic_rhss_of ?rl) ?td2"
    by (simp add: td_in_model_def Basic_lhss_of_def Basic_rhss_of_def list_of_set_def)
  from gradient_formula [of ?inp "[0]" ?td 2 ?rl] ex3_eval d tm obtain g where
    g: "gradient FromFile_class ?td 2 [0] ?m = (Inr g, ?m)" "length g = length [0::real]"
       "\<forall>k<length [0::real]. g ! k =
          gradient_spec 2 [0] (FromFile_lhss_of ?m) (FromFile_rhss_of ?m) (FromFile_featvec_of ?m) ?td k"
    by blast
  have "gradient_spec 2 [0] (FromFile_lhss_of ?m) (FromFile_rhss_of ?m) (FromFile_featvec_of ?m) ?td 0 = - 1"
    by (simp add: gradient_spec_def grad_loglikelihood_spec_def expectation_spec_def prob_of_def
        table_lookup_def prob_table_def softmax_def dot_def FromFile_lhss_of_def
        FromFile_rhss_of_def FromFile_featvec_of_def FromFile_lookup_def)
  with g(3) have "g ! 0 = - 1" by simp
  with g(2) have ge: "g = [- 1]" by (cases g) auto
  from gradient_formula [of ?inp "[7]" ?td2 2 ?rl] inv len tb obtain g2 where
    g2: "fst (gradient Basic_class ?td2 2 [7] (Basic_init ?rl)) = Inr g2" "length g2 = length [7::real]"
       "\<forall>k<length [7::real]. g2 ! k =
          gradient_spec 2 [7] (Basic_lhss_of ?rl) (Basic_rhss_of ?rl) (Basic_featvec_of ?rl) ?td2 k"
    by blast
  have "gradient_spec 2 [7] (Basic_lhss_of ?rl) (Basic_rhss_of ?rl) (Basic_featvec_of ?rl) ?td2 0 = 14"
    by (simp add: gradient_spec_def grad_loglikelihood_spec_def expectation_spec_def prob_of_def
        table_lookup_def prob_table_def softmax_def dot_def Basic_lhss_of_def
        Basic_rhss_of_def Basic_featvec_of_def list_of_set_def one_hot_def)
  with g2(3) have "g2 ! 0 = 14" by simp
  with g2(2) have g2e: "g2 = [14]" by (cases g2) auto
  from ex3_eval tm g(1) ge inv tb g2(1) g2e show ?thesis by simp
qed

section \<open>Repeated evaluations\<close>



end
